theory Spec2Isabelle
  imports Main "HOL-Library.Word"
begin

unbundle bit_operations_syntax

section \<open>The Fastboot gadget of bdk/usb/usb_gadget_fastboot.c\<close>

text \<open>
  A shallow embedding of the device side of the Fastboot protocol engine: the session
  structure, the status ratchet, response emission, the command interpreter, the RX and
  TX state machines and the scheduling loop. Every C function keeps its name. The USB
  transport, the display, the maintenance hooks and the restart action are collaborators
  outside the file: the values they return are inputs of the model, and the calls made to
  them are recorded, in program order, in a log carried by the session.
\<close>

subsection \<open>Enumerations\<close>

type_synonym u32 = "32 word"

datatype fastboot_status =
    FASTBOOT_STATUS_NORMAL
  | FASTBOOT_STATUS_PROTOCOL_RESET
  | FASTBOOT_STATUS_INVALID_STATE
  | FASTBOOT_STATUS_USB_ERROR
  | FASTBOOT_STATUS_REBOOT_BOOTLOADER

text \<open>The value the C compiler gives each enumerator; \<open>fastboot_set_status\<close> compares them.\<close>

fun status_value :: "fastboot_status \<Rightarrow> nat" where
  "status_value FASTBOOT_STATUS_NORMAL = 0"
| "status_value FASTBOOT_STATUS_PROTOCOL_RESET = 1"
| "status_value FASTBOOT_STATUS_INVALID_STATE = 2"
| "status_value FASTBOOT_STATUS_USB_ERROR = 3"
| "status_value FASTBOOT_STATUS_REBOOT_BOOTLOADER = 4"

datatype fastboot_rx_state =
    FASTBOOT_RX_STATE_INVALID
  | FASTBOOT_RX_STATE_IDLE
  | FASTBOOT_RX_STATE_COMMAND
  | FASTBOOT_RX_STATE_DOWNLOAD
  | FASTBOOT_RX_STATE_WAITING_TX_FOR_PROCESS
  | FASTBOOT_RX_STATE_WAITING_TX_FOR_REBOOT_BOOTLOADER

datatype fastboot_tx_state =
    FASTBOOT_TX_STATE_INVALID
  | FASTBOOT_TX_STATE_IDLE
  | FASTBOOT_TX_STATE_SEND_RESPONSE

datatype fastboot_response_type =
    FASTBOOT_RESPONSE_INFO
  | FASTBOOT_RESPONSE_FAIL
  | FASTBOOT_RESPONSE_OKAY
  | FASTBOOT_RESPONSE_DATA

datatype fastboot_disposition =
    FASTBOOT_DISPOSITION_NORMAL
  | FASTBOOT_DISPOSITION_DOWNLOAD
  | FASTBOOT_DISPOSITION_REBOOT_BOOTLOADER

subsection \<open>Calls to the collaborators\<close>

text \<open>
  Where a read is armed: \<open>rx_buffer\<close>, or the download region at an offset
  (\<open>fastboot_download_buffer + download_head\<close>).
\<close>

datatype read_target = RxBuffer | DownloadBuffer u32

text \<open>
  One entry of the log:
  \<^item> \<open>ReadEp1Out target len\<close>: \<open>usb_device_read_ep1_out(target, len, ..., false)\<close>;
  \<^item> \<open>WriteEp1In frame\<close>: \<open>usb_device_write_ep1_in(tx_buffer, strlen(tx_buffer), ..., false)\<close>
    with the bytes handed over (\<open>WriteEp1InUnterminated\<close>: see \<open>write_event\<close> below);
  \<^item> \<open>ReadingPoll r\<close>, \<open>WritingPoll r\<close>: a call of
    \<open>usb_device_ep1_out_reading_poll\<close>, of \<open>usb_device_ep1_in_writing_poll\<close>, and its result;
  \<^item> \<open>GetSuspended b\<close>: \<open>usb_device_get_suspended()\<close> and its result;
  \<^item> \<open>Ep0Ctrl b\<close>: \<open>usbd_handle_ep0_pending_control_transfer()\<close> and its result;
  \<^item> \<open>SetText\<close> and the three entries beside it: a call of \<open>set_text\<close>; the texts built
    with \<open>s_printf\<close> are recorded by their arguments;
  \<^item> \<open>MinervaPeriodicTraining\<close>: \<open>minerva_periodic_training()\<close>;
    \<open>SystemMaintenance\<close>: \<open>system_maintenance(true)\<close>;
  \<^item> \<open>UsbdEnd a b\<close>: \<open>usbd_end(a, b)\<close>; \<open>ReloadNyx\<close>: \<open>reload_nyx()\<close>;
  \<^item> \<open>HandleCommand rx tx line\<close>: an entry into \<open>fastboot_handle_command\<close>, with the RX
    and TX states it was entered in and the command line it saw;
  \<^item> \<open>MessageOverrun\<close>: no call, but a byte that \<open>fastboot_handle_command\<close> has written
    behind the end of its local array \<open>message\<close> (see \<open>c_strncat\<close> below).
\<close>

datatype event =
    ReadEp1Out read_target u32
  | WriteEp1In string
  | WriteEp1InUnterminated
  | ReadingPoll int
  | WritingPoll int
  | GetSuspended bool
  | Ep0Ctrl bool
  | SetText string
  | SetTextDownloading u32 u32
  | SetTextStates string string
  | SetTextInvalidState fastboot_rx_state fastboot_tx_state
  | MinervaPeriodicTraining
  | SystemMaintenance
  | UsbdEnd bool bool
  | ReloadNyx
  | HandleCommand fastboot_rx_state fastboot_tx_state string
  | MessageOverrun

subsection \<open>The session\<close>

text \<open>
  \<open>usbd_gadget_fastboot_t\<close>. The two buffers are lists of
  \<open>FASTBOOT_COMMAND_BUFFER_SIZE + 1 = 65\<close> bytes. The callback pointers of the structure
  show as entries of the log. \<open>timer_dram\<close> and \<open>timer_status_bar\<close> are the two static
  variables of \<open>_system_maintenance\<close>; they are no members of the structure, and they
  keep their values from one call of the gadget to the next.
\<close>

record fastboot =
  status :: fastboot_status
  rx_state :: fastboot_rx_state
  tx_state :: fastboot_tx_state
  tight_turnaround :: bool
  rx_buffer :: "char list"
  rx_length :: u32
  download_head :: u32
  download_size :: u32
  download_amount :: u32
  tx_buffer :: "char list"
  tx_length :: u32
  timer_dram :: u32
  timer_status_bar :: u32
  trace :: "event list"

definition FASTBOOT_COMMAND_BUFFER_SIZE :: nat where
  "FASTBOOT_COMMAND_BUFFER_SIZE = 64"

definition NUL :: char where
  "NUL = CHR 0x00"

definition emit :: "event \<Rightarrow> fastboot \<Rightarrow> fastboot" where
  "emit ev fb = fb\<lparr>trace := trace fb @ [ev]\<rparr>"

subsection \<open>The status ratchet\<close>

text \<open>
  \<open>fastboot_set_status\<close> (lines 101 to 109): the pair is the C return value and the
  session after the call.
\<close>

definition fastboot_set_status :: "fastboot_status \<Rightarrow> fastboot \<Rightarrow> bool \<times> fastboot" where
  "fastboot_set_status new_status fb =
     (if status_value (status fb) \<le> status_value new_status
      then (True, fb\<lparr>status := new_status\<rparr>)
      else (False, fb))"

subsection \<open>Configuration and inputs\<close>

text \<open>
  The two constants the file takes from headers that are not among the sources:
  \<open>fastboot_download_capacity = RAM_DISK_SZ\<close> (memory_map.h) and
  \<open>USB_EP_BUFFER_MAX_SIZE\<close> (usb/usbd.h).
\<close>

record config =
  fastboot_download_capacity :: u32
  USB_EP_BUFFER_MAX_SIZE :: u32

text \<open>
  What the collaborators return to the calls made during one pass of the scheduling loop
  (or during the set-up before the loop):
  \<^item> \<open>tmr_ms_first\<close>, \<open>tmr_ms_second\<close>: the two calls of \<open>get_tmr_ms\<close> in
    \<open>_system_maintenance\<close>;
  \<^item> \<open>get_suspended\<close>: \<open>usb_device_get_suspended()\<close>; \<open>ep0_pending\<close>:
    \<open>usbd_handle_ep0_pending_control_transfer()\<close>;
  \<^item> \<open>read_ep1_out_res\<close>: the return value of \<open>usb_device_read_ep1_out\<close> (0 when the
    read has been armed); a pass calls it at most once;
  \<^item> \<open>write_ep1_in_res\<close>: the return value of \<open>usb_device_write_ep1_in\<close>. A pass can
    call it twice: from the response emitted by \<open>fastboot_rx_enter_download\<close> and, when
    that one was reached from \<open>fastboot_send_response\<close> itself, again at line 168 of the
    outer call; \<open>write_ep1_in_res_nested\<close> is the result of the inner call;
  \<^item> \<open>reading_poll_res\<close>: the result of \<open>usb_device_ep1_out_reading_poll\<close>, with the
    bytes received (\<open>reading_poll_bytes\<close>, for a read armed on \<open>rx_buffer\<close>) or their
    number (\<open>reading_poll_amount\<close>, for a read armed on the download region);
  \<^item> \<open>writing_poll_res\<close>: the result of \<open>usb_device_ep1_in_writing_poll\<close>, with the
    number of bytes sent (\<open>writing_poll_len\<close>);
  \<^item> \<open>timer_dram_entry\<close>, \<open>timer_status_bar_entry\<close>: what the two static variables of
    \<open>_system_maintenance\<close> hold when the gadget is entered: 0 at the first call in a
    program, and what the call before has left at a later one. Only the inputs of the
    set-up are asked for them.
\<close>

record usb_io =
  tmr_ms_first :: u32
  tmr_ms_second :: u32
  get_suspended :: bool
  ep0_pending :: bool
  read_ep1_out_res :: int
  write_ep1_in_res :: int
  write_ep1_in_res_nested :: int
  reading_poll_res :: int
  reading_poll_bytes :: "char list"
  reading_poll_amount :: u32
  writing_poll_res :: int
  writing_poll_len :: u32
  timer_dram_entry :: u32
  timer_status_bar_entry :: u32

subsection \<open>C strings\<close>

text \<open>
  The string a \<open>char *\<close> denotes: the bytes before the first NUL. On a buffer that
  holds no NUL the C functions read on behind it; \<open>fastboot_rx_state_command\<close> ends
  \<open>rx_buffer\<close> with a NUL before the interpreter reads it, and
  \<open>fastboot_tx_enter_send_response\<close> below records the case for \<open>tx_buffer\<close>.
\<close>

definition c_str :: "char list \<Rightarrow> string" where
  "c_str buf = takeWhile (\<lambda>c. c \<noteq> NUL) buf"

text \<open>\<open>strcmp(p, lit) == 0\<close> and \<open>strncmp(p, lit, n) == 0\<close> for a literal \<open>lit\<close>.\<close>

definition strcmp_eq :: "char list \<Rightarrow> string \<Rightarrow> bool" where
  "strcmp_eq p lit = (c_str p = lit)"

definition strncmp_eq :: "char list \<Rightarrow> string \<Rightarrow> nat \<Rightarrow> bool" where
  "strncmp_eq p lit n = (take n (c_str p) = take n lit)"

text \<open>Writing \<open>bytes\<close> into a buffer at an offset, all of it inside the buffer.\<close>

definition mem_write :: "char list \<Rightarrow> nat \<Rightarrow> char list \<Rightarrow> char list" where
  "mem_write buf off bytes = take off buf @ bytes @ drop (off + length bytes) buf"

text \<open>\<open>strcpy\<close> writes the string and its terminator.\<close>

definition c_strcpy :: "char list \<Rightarrow> string \<Rightarrow> char list" where
  "c_strcpy buf s = mem_write buf 0 (s @ [NUL])"

text \<open>
  \<open>strncpy(buf + off, s, n)\<close> writes exactly \<open>n\<close> bytes: the first \<open>n\<close> bytes of the
  string, then NULs up to \<open>n\<close>; a string of \<open>n\<close> bytes or more is left without
  terminator.
\<close>

definition c_strncpy :: "char list \<Rightarrow> nat \<Rightarrow> string \<Rightarrow> nat \<Rightarrow> char list" where
  "c_strncpy buf off s n = mem_write buf off (take n s @ replicate (n - length s) NUL)"

text \<open>
  Modelled from the spec: one hex digit as \<open>s_printf\<close> prints it (utils/sprintf.c is not
  among the sources), uppercase for the format \<open>%08X\<close> and lowercase for \<open>%08x\<close>.
\<close>

definition hex_digit :: "bool \<Rightarrow> nat \<Rightarrow> char" where
  "hex_digit upper d =
     (if upper then ''0123456789ABCDEF'' else ''0123456789abcdef'') ! (d mod 16)"

text \<open>
  Modelled from the spec: \<open>s_printf\<close> with the formats \<open>%08X\<close> (\<open>upper\<close>) and
  \<open>%08x\<close>: "8 uppercase hex digits", respectively "8 lowercase hex digits", of a 32-bit
  value, most significant first.
\<close>

definition s_printf_08x :: "bool \<Rightarrow> u32 \<Rightarrow> string" where
  "s_printf_08x upper v =
     map (\<lambda>i. hex_digit upper (unat (drop_bit (4 * i) v AND 0xF))) [7, 6, 5, 4, 3, 2, 1, 0]"

subsection \<open>RX and TX state entry\<close>

definition fastboot_rx_enter_idle :: "fastboot \<Rightarrow> fastboot" where
  "fastboot_rx_enter_idle fb = fb\<lparr>rx_state := FASTBOOT_RX_STATE_IDLE\<rparr>"

text \<open>Lines 428 to 434: arm a read of up to 64 bytes into \<open>rx_buffer\<close>.\<close>

definition fastboot_rx_enter_command :: "usb_io \<Rightarrow> fastboot \<Rightarrow> fastboot" where
  "fastboot_rx_enter_command io fb =
     (let fb1 = emit (ReadEp1Out RxBuffer (of_nat FASTBOOT_COMMAND_BUFFER_SIZE)) fb;
          fb2 = (if read_ep1_out_res io \<noteq> 0
                 then snd (fastboot_set_status FASTBOOT_STATUS_USB_ERROR fb1) else fb1)
      in fb2\<lparr>rx_state := FASTBOOT_RX_STATE_COMMAND\<rparr>)"

definition fastboot_rx_enter_waiting_tx_for_process :: "fastboot \<Rightarrow> fastboot" where
  "fastboot_rx_enter_waiting_tx_for_process fb =
     fb\<lparr>rx_state := FASTBOOT_RX_STATE_WAITING_TX_FOR_PROCESS\<rparr>"

definition fastboot_rx_enter_waiting_tx_for_reboot_bootloader :: "fastboot \<Rightarrow> fastboot" where
  "fastboot_rx_enter_waiting_tx_for_reboot_bootloader fb =
     fb\<lparr>rx_state := FASTBOOT_RX_STATE_WAITING_TX_FOR_REBOOT_BOOTLOADER\<rparr>"

definition fastboot_tx_enter_idle :: "fastboot \<Rightarrow> fastboot" where
  "fastboot_tx_enter_idle fb = fb\<lparr>tx_state := FASTBOOT_TX_STATE_IDLE\<rparr>"

text \<open>
  The call \<open>usb_device_write_ep1_in(tx_buffer, strlen(tx_buffer), ...)\<close> as it shows in
  the log: the frame is the string in the buffer. When the 65 bytes hold no NUL,
  \<open>strlen\<close> runs past the buffer, and the log records \<open>WriteEp1InUnterminated\<close> in
  place of a frame.
\<close>

definition write_event :: "char list \<Rightarrow> event" where
  "write_event buf =
     (if NUL \<in> set buf then WriteEp1In (c_str buf) else WriteEp1InUnterminated)"

text \<open>Lines 477 to 483: arm a write of \<open>strlen(tx_buffer)\<close> bytes of \<open>tx_buffer\<close>.\<close>

definition fastboot_tx_enter_send_response :: "usb_io \<Rightarrow> fastboot \<Rightarrow> fastboot" where
  "fastboot_tx_enter_send_response io fb =
     (let fb1 = emit (write_event (tx_buffer fb)) fb;
          fb2 = (if write_ep1_in_res io \<noteq> 0
                 then snd (fastboot_set_status FASTBOOT_STATUS_USB_ERROR fb1) else fb1)
      in fb2\<lparr>tx_state := FASTBOOT_TX_STATE_SEND_RESPONSE\<rparr>)"

subsection \<open>Response emission and download entry\<close>

fun response_tag :: "fastboot_response_type \<Rightarrow> string" where
  "response_tag FASTBOOT_RESPONSE_INFO = ''INFO''"
| "response_tag FASTBOOT_RESPONSE_FAIL = ''FAIL''"
| "response_tag FASTBOOT_RESPONSE_OKAY = ''OKAY''"
| "response_tag FASTBOOT_RESPONSE_DATA = ''DATA''"

text \<open>
  Lines 130 to 151 of \<open>fastboot_send_response\<close>: \<open>memset\<close>, \<open>strcpy\<close> of the tag,
  \<open>strncpy\<close> of the message (a NULL message is \<open>None\<close>) into the
  \<open>sizeof(tx_buffer) - 4 = 61\<close> bytes behind the tag.
\<close>

definition build_frame ::
  "fastboot_response_type \<Rightarrow> string option \<Rightarrow> fastboot \<Rightarrow> fastboot" where
  "build_frame type message fb =
     (let fb1 = fb\<lparr>tx_buffer := replicate (FASTBOOT_COMMAND_BUFFER_SIZE + 1) NUL\<rparr>;
          fb2 = fb1\<lparr>tx_buffer := c_strcpy (tx_buffer fb1) (response_tag type)\<rparr>
      in case message of
           None \<Rightarrow> fb2
         | Some m \<Rightarrow>
             fb2\<lparr>tx_buffer :=
               c_strncpy (tx_buffer fb2) 4 m (FASTBOOT_COMMAND_BUFFER_SIZE + 1 - 4)\<rparr>)"

text \<open>
  \<open>fastboot_send_response\<close> (lines 126 to 169) and \<open>fastboot_rx_enter_download\<close>
  (lines 446 to 469) call each other: the download entry emits \<open>OKAY got it!\<close> once the
  head has reached the size, and the response emission enters the download state for the
  disposition DOWNLOAD.
\<close>

function
  fastboot_send_response ::
    "config \<Rightarrow> usb_io \<Rightarrow> fastboot_response_type \<Rightarrow> fastboot_disposition \<Rightarrow> string option
       \<Rightarrow> fastboot \<Rightarrow> fastboot"
and
  fastboot_rx_enter_download :: "config \<Rightarrow> usb_io \<Rightarrow> fastboot \<Rightarrow> fastboot"
where
  "fastboot_send_response cfg io type disposition message fb =
     (let fb1 = build_frame type message fb;
          fb2 = (case disposition of
                   FASTBOOT_DISPOSITION_NORMAL \<Rightarrow> fastboot_rx_enter_command io fb1
                 | FASTBOOT_DISPOSITION_DOWNLOAD \<Rightarrow>
                     fastboot_rx_enter_download cfg
                       (io\<lparr>write_ep1_in_res := write_ep1_in_res_nested io\<rparr>) fb1
                 | FASTBOOT_DISPOSITION_REBOOT_BOOTLOADER \<Rightarrow>
                     fastboot_rx_enter_waiting_tx_for_reboot_bootloader fb1)
      in fastboot_tx_enter_send_response io fb2)"
| "fastboot_rx_enter_download cfg io fb =
     (if download_head fb < download_size fb
      then
        (let fb1 = emit (SetTextDownloading (download_head fb div 1024)
                           (download_size fb div 1024)) fb;
             fb2 = emit (ReadEp1Out (DownloadBuffer (download_head fb1))
                           (min (download_size fb1 - download_head fb1)
                                (USB_EP_BUFFER_MAX_SIZE cfg))) fb1;
             fb3 = (if read_ep1_out_res io \<noteq> 0
                    then snd (fastboot_set_status FASTBOOT_STATUS_USB_ERROR fb2) else fb2)
         in fb3\<lparr>rx_state := FASTBOOT_RX_STATE_DOWNLOAD\<rparr>)
      else
        fastboot_send_response cfg io FASTBOOT_RESPONSE_OKAY FASTBOOT_DISPOSITION_NORMAL
          (Some ''got it!'') (fb\<lparr>tight_turnaround := False\<rparr>))"
  by pat_completeness auto
termination
  by (relation "measure (\<lambda>x. case x of
          Inl (cfg, io, type, disposition, message, fb) \<Rightarrow>
            (if disposition = FASTBOOT_DISPOSITION_DOWNLOAD then 2 else 0)
        | Inr (cfg, io, fb) \<Rightarrow> 1)") auto

declare fastboot_send_response.simps [simp del]
declare fastboot_rx_enter_download.simps [simp del]

subsection \<open>The command interpreter\<close>

text \<open>
  The body of the loop at lines 207 to 227, one call per byte of the window
  \<open>command[9] .. command[16]\<close>: shift the size left by four bits, then OR the value of
  the hex digit in; a byte that is no hex digit leaves the loop with
  \<open>parsed_int_ok = false\<close>, here \<open>None\<close>. The local variable \<open>download_size\<close> of
  the C function is \<open>dl_size\<close> here (the session has a field of that name). The three
  range tests give the same answer for a signed and for an unsigned \<open>char\<close>.
\<close>

fun parse_hex_window :: "char list \<Rightarrow> u32 \<Rightarrow> u32 option" where
  "parse_hex_window [] dl_size = Some dl_size"
| "parse_hex_window (ch # rest) dl_size0 =
     (let dl_size = push_bit 4 dl_size0;
          c = (of_char ch :: nat)
      in if of_char CHR ''0'' \<le> c \<and> c \<le> of_char CHR ''9''
         then parse_hex_window rest (dl_size OR of_nat (c - of_char CHR ''0''))
         else if of_char CHR ''a'' \<le> c \<and> c \<le> of_char CHR ''f''
         then parse_hex_window rest (dl_size OR of_nat (c - of_char CHR ''a'' + 0xa))
         else if of_char CHR ''A'' \<le> c \<and> c \<le> of_char CHR ''F''
         then parse_hex_window rest (dl_size OR of_nat (c - of_char CHR ''A'' + 0xa))
         else None)"

text \<open>
  \<open>strncat(dst, src, n)\<close> on an array \<open>dst\<close>: behind the string that \<open>dst\<close> holds it
  writes the first \<open>n\<close> bytes of the string \<open>src\<close> and then, always, a terminator:
  up to \<open>n + 1\<close> bytes. The result is the array after the call and whether a byte has
  been written behind its end. C gives no meaning to such a write; the array of the
  model keeps the bytes that fall inside it, and the caller records the overrun.
\<close>

definition c_strncat :: "char list \<Rightarrow> char list \<Rightarrow> nat \<Rightarrow> char list \<times> bool" where
  "c_strncat dst src n =
     (let off = length (c_str dst);
          bytes = take n (c_str src) @ [NUL]
      in (take (length dst) (mem_write dst off bytes), length dst < off + length bytes))"

text \<open>
  \<open>fastboot_handle_command\<close> (lines 171 to 257). In the last branch \<open>message\<close> is an
  array of 61 bytes, the indices 0 to 60, that starts as \<open>unknown command: \<close> followed by
  NULs. \<open>strncat\<close> is called with the bound \<open>sizeof(message) - strlen(message) = 44\<close>:
  for a command of 44 bytes or more it fills \<open>message[17] .. message[60]\<close> and writes its
  terminator at \<open>message[61]\<close>, one byte behind the array. The model records that write
  as \<open>MessageOverrun\<close> and goes on as the program does when the byte behind the array
  is not in use: \<open>message[60] = 0\<close> ends the string at 60 bytes and the answer is sent.
\<close>

definition fastboot_handle_command :: "config \<Rightarrow> usb_io \<Rightarrow> fastboot \<Rightarrow> fastboot" where
  "fastboot_handle_command cfg io fb0 =
     (let fb = emit (HandleCommand (rx_state fb0) (tx_state fb0) (c_str (rx_buffer fb0))) fb0;
          command = rx_buffer fb
      in if strncmp_eq command ''getvar:'' 7 then
           (let variable = drop 7 command
            in if strcmp_eq variable ''version'' then
                 fastboot_send_response cfg io FASTBOOT_RESPONSE_OKAY
                   FASTBOOT_DISPOSITION_NORMAL (Some ''0.4'') fb
               else if strcmp_eq variable ''product'' then
                 fastboot_send_response cfg io FASTBOOT_RESPONSE_OKAY
                   FASTBOOT_DISPOSITION_NORMAL (Some ''Nyx'') fb
               else if strcmp_eq variable ''max-download-size'' then
                 fastboot_send_response cfg io FASTBOOT_RESPONSE_OKAY
                   FASTBOOT_DISPOSITION_NORMAL
                   (Some (s_printf_08x True (fastboot_download_capacity cfg))) fb
               else
                 fastboot_send_response cfg io FASTBOOT_RESPONSE_FAIL
                   FASTBOOT_DISPOSITION_NORMAL (Some ''unknown variable'') fb)
         else if strcmp_eq command ''reboot-bootloader'' then
           fastboot_send_response cfg io FASTBOOT_RESPONSE_OKAY
             FASTBOOT_DISPOSITION_REBOOT_BOOTLOADER (Some []) fb
         else if strncmp_eq command ''download:'' 9 then
           (case parse_hex_window (take 8 (drop 9 command)) 0 of
              None \<Rightarrow>
                fastboot_send_response cfg io FASTBOOT_RESPONSE_FAIL
                  FASTBOOT_DISPOSITION_NORMAL (Some ''failed to parse size'') fb
            | Some dl_size \<Rightarrow>
                if dl_size > fastboot_download_capacity cfg then
                  fastboot_send_response cfg io FASTBOOT_RESPONSE_FAIL
                    FASTBOOT_DISPOSITION_NORMAL (Some ''download size too large'') fb
                else
                  fastboot_send_response cfg io FASTBOOT_RESPONSE_DATA
                    FASTBOOT_DISPOSITION_DOWNLOAD (Some (s_printf_08x False dl_size))
                    (fb\<lparr>download_head := 0, download_amount := 0,
                        download_size := dl_size\<rparr>))
         else
           (let message = ''unknown command: '' @
                            replicate (61 - length ''unknown command: '') NUL;
                cat = c_strncat message command (length message - length (c_str message));
                fb = (if snd cat then emit MessageOverrun fb else fb);
                message = (fst cat)[60 := NUL]
            in fastboot_send_response cfg io FASTBOOT_RESPONSE_FAIL
                 FASTBOOT_DISPOSITION_NORMAL (Some (c_str message)) fb))"

subsection \<open>Periodic maintenance\<close>

text \<open>\<open>_system_maintenance\<close> (lines 259 to 276).\<close>

definition system_maintenance :: "usb_io \<Rightarrow> fastboot \<Rightarrow> fastboot" where
  "system_maintenance io fb =
     (let time = tmr_ms_first io
      in if timer_dram fb < time then
           (emit MinervaPeriodicTraining fb)\<lparr>timer_dram := tmr_ms_second io + 100\<rparr>
         else if timer_status_bar fb < time then
           (emit SystemMaintenance fb)\<lparr>timer_status_bar := tmr_ms_second io + 30000\<rparr>
         else fb)"

subsection \<open>RX and TX state processing\<close>

definition fastboot_handle_ep0_ctrl :: "usb_io \<Rightarrow> fastboot \<Rightarrow> fastboot" where
  "fastboot_handle_ep0_ctrl io fb =
     (let fb1 = emit (Ep0Ctrl (ep0_pending io)) fb
      in if ep0_pending io
         then snd (fastboot_set_status FASTBOOT_STATUS_PROTOCOL_RESET fb1) else fb1)"

definition fastboot_rx_state_idle :: "fastboot \<Rightarrow> fastboot" where
  "fastboot_rx_state_idle fb = fb"

text \<open>
  Modelled from the spec: the completion of a read armed on \<open>rx_buffer\<close>
  (\<open>usb_device_ep1_out_reading_poll\<close>; usb/usbd.c is not among the sources). The
  transport places the received bytes, at most the 64 that were asked for, at the start
  of the buffer, leaves the bytes behind them as they were and reports their number.
\<close>

definition usb_read_complete_command :: "usb_io \<Rightarrow> fastboot \<Rightarrow> fastboot" where
  "usb_read_complete_command io fb =
     (let data = take FASTBOOT_COMMAND_BUFFER_SIZE (reading_poll_bytes io)
      in fb\<lparr>rx_buffer := mem_write (rx_buffer fb) 0 data, rx_length := of_nat (length data)\<rparr>)"

text \<open>
  \<open>fastboot_rx_state_command\<close> (lines 492 to 509). Result 0 of the poll is completion,
  3 is still active, anything else an error. \<open>rx_length\<close> is at most 64, so the
  terminator is written inside the 65 bytes.
\<close>

definition fastboot_rx_state_command :: "usb_io \<Rightarrow> fastboot \<Rightarrow> fastboot" where
  "fastboot_rx_state_command io fb =
     (let fb1 = emit (ReadingPoll (reading_poll_res io)) fb
      in if reading_poll_res io = 0 then
           (let fb2 = usb_read_complete_command io fb1;
                fb3 = fb2\<lparr>rx_buffer := (rx_buffer fb2)[unat (rx_length fb2) := NUL]\<rparr>
            in fastboot_rx_enter_waiting_tx_for_process fb3)
         else if reading_poll_res io = 3 then fb1
         else snd (fastboot_set_status FASTBOOT_STATUS_USB_ERROR fb1))"

text \<open>
  \<open>fastboot_rx_state_download\<close> (lines 511 to 527). The poll stores the number of bytes
  it received in \<open>download_amount\<close>; the contents of the download region are not part
  of the model.
\<close>

definition fastboot_rx_state_download :: "config \<Rightarrow> usb_io \<Rightarrow> fastboot \<Rightarrow> fastboot" where
  "fastboot_rx_state_download cfg io fb =
     (let fb1 = emit (ReadingPoll (reading_poll_res io)) fb
      in if reading_poll_res io = 0 then
           (let fb2 = fb1\<lparr>download_amount := reading_poll_amount io\<rparr>;
                fb3 = fb2\<lparr>download_head := download_head fb2 + download_amount fb2\<rparr>
            in fastboot_rx_enter_download cfg io fb3)
         else if reading_poll_res io = 3 then fb1
         else snd (fastboot_set_status FASTBOOT_STATUS_USB_ERROR fb1))"

text \<open>\<open>fastboot_rx_state_waiting_tx_for_process\<close> (lines 529 to 547).\<close>

definition fastboot_rx_state_waiting_tx_for_process ::
  "config \<Rightarrow> usb_io \<Rightarrow> fastboot \<Rightarrow> fastboot" where
  "fastboot_rx_state_waiting_tx_for_process cfg io fb =
     (if tx_state fb = FASTBOOT_TX_STATE_IDLE
      then fastboot_handle_command cfg io (fastboot_rx_enter_idle fb)
      else fb)"

text \<open>\<open>fastboot_rx_state_waiting_tx_for_reboot_bootloader\<close> (lines 549 to 556).\<close>

definition fastboot_rx_state_waiting_tx_for_reboot_bootloader :: "fastboot \<Rightarrow> fastboot" where
  "fastboot_rx_state_waiting_tx_for_reboot_bootloader fb =
     (if tx_state fb = FASTBOOT_TX_STATE_IDLE
      then snd (fastboot_set_status FASTBOOT_STATUS_REBOOT_BOOTLOADER
                  (fastboot_rx_enter_idle fb))
      else fb)"

definition fastboot_tx_state_idle :: "fastboot \<Rightarrow> fastboot" where
  "fastboot_tx_state_idle fb = fb"

text \<open>\<open>fastboot_tx_state_send_response\<close> (lines 564 to 578).\<close>

definition fastboot_tx_state_send_response :: "usb_io \<Rightarrow> fastboot \<Rightarrow> fastboot" where
  "fastboot_tx_state_send_response io fb =
     (let fb1 = emit (WritingPoll (writing_poll_res io)) fb
      in if writing_poll_res io = 0 then
           fastboot_tx_enter_idle (fb1\<lparr>tx_length := writing_poll_len io\<rparr>)
         else if writing_poll_res io = 3 then fb1
         else snd (fastboot_set_status FASTBOOT_STATUS_USB_ERROR fb1))"

subsection \<open>The scheduling loop\<close>

text \<open>The two \<open>switch\<close> statements of the loop (lines 331 to 375), with the state names.\<close>

definition rx_switch :: "config \<Rightarrow> usb_io \<Rightarrow> fastboot \<Rightarrow> string \<times> fastboot" where
  "rx_switch cfg io fb =
     (case rx_state fb of
        FASTBOOT_RX_STATE_IDLE \<Rightarrow> (''idle'', fastboot_rx_state_idle fb)
      | FASTBOOT_RX_STATE_COMMAND \<Rightarrow> (''command'', fastboot_rx_state_command io fb)
      | FASTBOOT_RX_STATE_DOWNLOAD \<Rightarrow> (''download'', fastboot_rx_state_download cfg io fb)
      | FASTBOOT_RX_STATE_WAITING_TX_FOR_PROCESS \<Rightarrow>
          (''wtx process'', fastboot_rx_state_waiting_tx_for_process cfg io fb)
      | FASTBOOT_RX_STATE_WAITING_TX_FOR_REBOOT_BOOTLOADER \<Rightarrow>
          (''wtx reboot'', fastboot_rx_state_waiting_tx_for_reboot_bootloader fb)
      | FASTBOOT_RX_STATE_INVALID \<Rightarrow>
          (''invalid'', snd (fastboot_set_status FASTBOOT_STATUS_INVALID_STATE fb)))"

definition tx_switch :: "usb_io \<Rightarrow> fastboot \<Rightarrow> string \<times> fastboot" where
  "tx_switch io fb =
     (case tx_state fb of
        FASTBOOT_TX_STATE_IDLE \<Rightarrow> (''idle'', fastboot_tx_state_idle fb)
      | FASTBOOT_TX_STATE_SEND_RESPONSE \<Rightarrow>
          (''send response'', fastboot_tx_state_send_response io fb)
      | FASTBOOT_TX_STATE_INVALID \<Rightarrow>
          (''invalid'', snd (fastboot_set_status FASTBOOT_STATUS_INVALID_STATE fb)))"

text \<open>
  One pass of the loop body from line 329 on, after the suspension check: the control
  endpoint, one RX step, one TX step, then the display of the two state names unless
  \<open>tight_turnaround\<close> is set.
\<close>

definition loop_steps :: "config \<Rightarrow> usb_io \<Rightarrow> fastboot \<Rightarrow> fastboot" where
  "loop_steps cfg io fb =
     (let fb1 = fastboot_handle_ep0_ctrl io fb;
          rx = rx_switch cfg io fb1;
          tx = tx_switch io (snd rx)
      in if \<not> tight_turnaround (snd tx)
         then emit (SetTextStates (fst rx) (fst tx)) (snd tx) else snd tx)"

text \<open>
  Lines 319 to 327: the optional maintenance, then the suspension check that may leave
  the loop. \<open>Inl\<close> is the \<open>break\<close>.
\<close>

definition loop_head :: "usb_io \<Rightarrow> fastboot \<Rightarrow> fastboot + fastboot" where
  "loop_head io fb =
     (let fb1 = (if \<not> tight_turnaround fb then system_maintenance io fb else fb);
          fb2 = emit (GetSuspended (get_suspended io)) fb1
      in if get_suspended io then Inl fb2 else Inr fb2)"

text \<open>
  The \<open>while\<close> loop of lines 317 to 383. Each pass consumes the inputs of one pass.
  The polls can stay pending for ever, so the loop need not end: \<open>fastboot_passes\<close>
  gives \<open>Inl\<close> of the final session when the loop has been left, and \<open>Inr\<close> of the
  session reached when the inputs are used up and the loop is still running.
  \<open>fastboot_loop\<close> is the loop as the program sees it: \<open>None\<close> is a loop that has
  not returned.
\<close>

fun fastboot_passes :: "config \<Rightarrow> usb_io list \<Rightarrow> fastboot \<Rightarrow> fastboot + fastboot" where
  "fastboot_passes cfg [] fb =
     (if status fb = FASTBOOT_STATUS_NORMAL then Inr fb else Inl fb)"
| "fastboot_passes cfg (io # ios) fb =
     (if status fb = FASTBOOT_STATUS_NORMAL then
        (case loop_head io fb of
           Inl fb' \<Rightarrow> Inl fb'
         | Inr fb' \<Rightarrow> fastboot_passes cfg ios (loop_steps cfg io fb'))
      else Inl fb)"

definition fastboot_loop :: "config \<Rightarrow> usb_io list \<Rightarrow> fastboot \<Rightarrow> fastboot option" where
  "fastboot_loop cfg ios fb =
     (case fastboot_passes cfg ios fb of Inl fb' \<Rightarrow> Some fb' | Inr fb' \<Rightarrow> None)"

subsection \<open>The gadget\<close>

text \<open>
  The session after \<open>memset(&fastboot, 0, sizeof(fastboot))\<close>, with an empty log. The
  \<open>memset\<close> does not reach the two static timers: they are 0 here, their value when the
  program starts, and \<open>fastboot_entry\<close> puts in what they hold when the gadget is entered.
\<close>

definition fastboot_zero :: fastboot where
  "fastboot_zero =
     \<lparr>status = FASTBOOT_STATUS_NORMAL, rx_state = FASTBOOT_RX_STATE_INVALID,
      tx_state = FASTBOOT_TX_STATE_INVALID, tight_turnaround = False,
      rx_buffer = replicate (FASTBOOT_COMMAND_BUFFER_SIZE + 1) NUL, rx_length = 0,
      download_head = 0, download_size = 0, download_amount = 0,
      tx_buffer = replicate (FASTBOOT_COMMAND_BUFFER_SIZE + 1) NUL, tx_length = 0,
      timer_dram = 0, timer_status_bar = 0, trace = []\<rparr>"

definition fastboot_entry :: "usb_io \<Rightarrow> fastboot" where
  "fastboot_entry io0 =
     fastboot_zero\<lparr>timer_dram := timer_dram_entry io0,
                   timer_status_bar := timer_status_bar_entry io0\<rparr>"

text \<open>
  Lines 291 and 299 to 315: the session the loop starts from, when both initialisations
  have succeeded. \<open>io0\<close> holds the results of the calls made here.
\<close>

definition fastboot_start :: "usb_io \<Rightarrow> fastboot" where
  "fastboot_start io0 =
     (let fb0 = emit (SetText ''#C7EA46 Status:# Started USB'') (fastboot_entry io0);
          fb1 = fastboot_handle_ep0_ctrl io0 fb0;
          fb2 = fastboot_rx_enter_command io0 fb1
      in fastboot_tx_enter_idle fb2)"

text \<open>The \<open>switch\<close> on the final status (lines 385 to 404).\<close>

definition exit_text :: "fastboot \<Rightarrow> event" where
  "exit_text fb =
     (case status fb of
        FASTBOOT_STATUS_NORMAL \<Rightarrow> SetText ''#C7EA46 Status:# Fastboot ended''
      | FASTBOOT_STATUS_PROTOCOL_RESET \<Rightarrow>
          SetText ''#C7EA46 Status:# Fastboot ended (protocol reset)''
      | FASTBOOT_STATUS_INVALID_STATE \<Rightarrow> SetTextInvalidState (rx_state fb) (tx_state fb)
      | FASTBOOT_STATUS_USB_ERROR \<Rightarrow> SetText ''#C7EA46 Status:# Fastboot ended (usb error)''
      | FASTBOOT_STATUS_REBOOT_BOOTLOADER \<Rightarrow>
          SetText ''#C7EA46 Status:# Fastboot ended (rebooting bootloader)'')"

text \<open>The label \<open>exit\<close> (lines 410 to 418): teardown, then the restart action.\<close>

definition fastboot_exit :: "fastboot \<Rightarrow> fastboot" where
  "fastboot_exit fb =
     (let fb1 = emit (UsbdEnd True False) fb
      in if status fb1 = FASTBOOT_STATUS_REBOOT_BOOTLOADER then emit ReloadNyx fb1 else fb1)"

text \<open>
  \<open>usb_device_gadget_fastboot\<close> (lines 287 to 419). \<open>init_res\<close> and \<open>ep0_init_res\<close>
  are the results of \<open>usb_device_init\<close> and \<open>usb_device_ep0_initialize\<close>. The result
  is the return value and the final session, or \<open>None\<close> for a loop that has not
  returned. On the first path the session does not exist yet; the model uses the zeroed
  one to carry the log and the static timers.
\<close>

definition usb_device_gadget_fastboot ::
  "config \<Rightarrow> int \<Rightarrow> int \<Rightarrow> usb_io \<Rightarrow> usb_io list \<Rightarrow> (int \<times> fastboot) option" where
  "usb_device_gadget_fastboot cfg init_res ep0_init_res io0 ios =
     (let fb0 = emit (SetText ''#C7EA46 Status:# Started USB'') (fastboot_entry io0)
      in if init_res \<noteq> 0 then Some (1, emit (UsbdEnd False True) fb0)
         else if ep0_init_res \<noteq> 0 then
           Some (1, fastboot_exit
                      (emit (SetText ''#C7EA46 Status:# Timed out or canceled'') fb0))
         else
           (case fastboot_loop cfg ios (fastboot_start io0) of
              None \<Rightarrow> None
            | Some fb \<Rightarrow> Some (0, fastboot_exit (emit (exit_text fb) fb))))"

section \<open>Notions used in the statements\<close>

text \<open>A hex digit, as the specification lists them: \<open>0-9a-fA-F\<close>.\<close>

definition is_hex_digit :: "char \<Rightarrow> bool" where
  "is_hex_digit c = (c \<in> set ''0123456789abcdefABCDEF'')"

text \<open>
  The status after a call of \<open>fastboot_set_status\<close> that is made only when \<open>c\<close> holds:
  how a failed transport call shows in the status.
\<close>

definition raise_status ::
  "bool \<Rightarrow> fastboot_status \<Rightarrow> fastboot_status \<Rightarrow> fastboot_status" where
  "raise_status c n s = (if c \<and> status_value s \<le> status_value n then n else s)"

text \<open>The 65 bytes of \<open>tx_buffer\<close> once the frame has been built.\<close>

definition frame_bytes :: "fastboot_response_type \<Rightarrow> string option \<Rightarrow> char list" where
  "frame_bytes type message =
     (case message of
        None \<Rightarrow> response_tag type @ replicate 61 NUL
      | Some m \<Rightarrow> response_tag type @ take 61 m @ replicate (61 - length m) NUL)"

text \<open>The frames handed to the transport, in order.\<close>

fun tx_frames :: "event list \<Rightarrow> string list" where
  "tx_frames [] = []"
| "tx_frames (WriteEp1In s # evs) = s # tx_frames evs"
| "tx_frames (ev # evs) = tx_frames evs"

text \<open>The session a run has reached, whether the loop has been left or not.\<close>

definition reached :: "fastboot + fastboot \<Rightarrow> fastboot" where
  "reached r = (case r of Inl fb \<Rightarrow> fb | Inr fb \<Rightarrow> fb)"

text \<open>
  The gate of the interpreter, read off the log: every entry into
  \<open>fastboot_handle_command\<close> found RX idle and TX idle.
\<close>

fun entry_gated :: "event \<Rightarrow> bool" where
  "entry_gated (HandleCommand rx tx line) =
     (rx = FASTBOOT_RX_STATE_IDLE \<and> tx = FASTBOOT_TX_STATE_IDLE)"
| "entry_gated ev = True"

definition gate_respected :: "event list \<Rightarrow> bool" where
  "gate_respected evs = list_all entry_gated evs"

text \<open>
  The progress of the answer to \<open>reboot-bootloader\<close>, read off the log from left to
  right. \<open>Armed\<close>: the last frame handed to the transport is exactly \<open>OKAY\<close>.
  \<open>Sent\<close>: after that, a poll of the write has reported completion (result 0).
  \<open>Ticked\<close>: after that, a further pass of the loop has begun (its suspension check
  has been made). Any other frame handed to the transport starts over.
\<close>

datatype okay_progress = NoOkay | Armed | Sent | Ticked

fun okay_step :: "okay_progress \<Rightarrow> event \<Rightarrow> okay_progress" where
  "okay_step p (WriteEp1In s) = (if s = ''OKAY'' then Armed else NoOkay)"
| "okay_step p WriteEp1InUnterminated = NoOkay"
| "okay_step Armed (WritingPoll r) = (if r = 0 then Sent else Armed)"
| "okay_step Sent (GetSuspended b) = Ticked"
| "okay_step p ev = p"

definition okay_progress_of :: "event list \<Rightarrow> okay_progress" where
  "okay_progress_of evs = foldl okay_step NoOkay evs"

subsection \<open>What a step may do\<close>

text \<open>
  An entry the loop may add to the log: an entry into the interpreter only through the
  open gate, and neither the teardown nor the restart action.
\<close>

fun step_event :: "event \<Rightarrow> bool" where
  "step_event (HandleCommand rx tx line) =
     (rx = FASTBOOT_RX_STATE_IDLE \<and> tx = FASTBOOT_TX_STATE_IDLE)"
| "step_event (UsbdEnd a b) = False"
| "step_event ReloadNyx = False"
| "step_event ev = True"

text \<open>
  \<open>advances fb fb'\<close>: \<open>fb'\<close> extends the log of \<open>fb\<close> by such entries, its status is
  not below that of \<open>fb\<close>, and \<open>tight_turnaround\<close> is not set in \<open>fb'\<close> unless it was
  in \<open>fb\<close>.
\<close>

definition advances :: "fastboot \<Rightarrow> fastboot \<Rightarrow> bool" where
  "advances fb fb' =
     (take (length (trace fb)) (trace fb') = trace fb
      \<and> list_all step_event (drop (length (trace fb)) (trace fb'))
      \<and> status_value (status fb) \<le> status_value (status fb')
      \<and> (tight_turnaround fb \<or> \<not> tight_turnaround fb'))"

text \<open>
  What holds of a session between two passes, as far as the reboot is concerned: a status
  REBOOT_BOOTLOADER has seen the \<open>OKAY\<close> answer leave and a further pass begin, and a
  session waiting for TX before the reboot has either the \<open>OKAY\<close> frame in flight or TX
  idle with the frame gone.
\<close>

definition reboot_inv :: "fastboot \<Rightarrow> bool" where
  "reboot_inv fb =
     ((status fb \<noteq> FASTBOOT_STATUS_REBOOT_BOOTLOADER \<or> okay_progress_of (trace fb) = Ticked)
      \<and> (rx_state fb \<noteq> FASTBOOT_RX_STATE_WAITING_TX_FOR_REBOOT_BOOTLOADER
           \<or> tx_state fb = FASTBOOT_TX_STATE_SEND_RESPONSE
              \<and> okay_progress_of (trace fb) = Armed
           \<or> tx_state fb = FASTBOOT_TX_STATE_IDLE
              \<and> (okay_progress_of (trace fb) = Sent \<or> okay_progress_of (trace fb) = Ticked)))"

text \<open>The same inside a pass, behind the suspension check: the status is not yet
  REBOOT_BOOTLOADER, and an idle TX has been seen idle at the start of this pass.\<close>

definition reboot_mid :: "fastboot \<Rightarrow> bool" where
  "reboot_mid fb =
     (status fb \<noteq> FASTBOOT_STATUS_REBOOT_BOOTLOADER
      \<and> (rx_state fb \<noteq> FASTBOOT_RX_STATE_WAITING_TX_FOR_REBOOT_BOOTLOADER
           \<or> tx_state fb = FASTBOOT_TX_STATE_SEND_RESPONSE
              \<and> okay_progress_of (trace fb) = Armed
           \<or> tx_state fb = FASTBOOT_TX_STATE_IDLE \<and> okay_progress_of (trace fb) = Ticked))"

subsection \<open>Example inputs\<close>

text \<open>
  A capacity of \<open>0x08000000\<close> bytes, as in the specification's scenario, and a transport
  that takes at most \<open>0x1000\<close> bytes per read.
\<close>

definition cfg_example :: config where
  "cfg_example = \<lparr>fastboot_download_capacity = 0x08000000, USB_EP_BUFFER_MAX_SIZE = 0x1000\<rparr>"

text \<open>
  A pass in which nothing happens: both polls still active (result 3), every call
  accepted (result 0), no suspension, no control event, the timer at \<open>t\<close>. As inputs of
  the set-up they stand for the first call of the gadget in a program: the two static
  timers are 0.
\<close>

definition io_idle :: "u32 \<Rightarrow> usb_io" where
  "io_idle t =
     \<lparr>tmr_ms_first = t, tmr_ms_second = t, get_suspended = False, ep0_pending = False,
      read_ep1_out_res = 0, write_ep1_in_res = 0, write_ep1_in_res_nested = 0,
      reading_poll_res = 3, reading_poll_bytes = [], reading_poll_amount = 0,
      writing_poll_res = 3, writing_poll_len = 0,
      timer_dram_entry = 0, timer_status_bar_entry = 0\<rparr>"

text \<open>A pass in which the armed command read completes with the given bytes.\<close>

definition io_recv :: "u32 \<Rightarrow> string \<Rightarrow> usb_io" where
  "io_recv t bytes = (io_idle t)\<lparr>reading_poll_res := 0, reading_poll_bytes := bytes\<rparr>"

text \<open>A pass in which the armed download read completes with \<open>n\<close> bytes.\<close>

definition io_chunk :: "u32 \<Rightarrow> u32 \<Rightarrow> usb_io" where
  "io_chunk t n = (io_idle t)\<lparr>reading_poll_res := 0, reading_poll_amount := n\<rparr>"

text \<open>A pass in which the write in flight completes.\<close>

definition io_sent :: "u32 \<Rightarrow> usb_io" where
  "io_sent t = (io_idle t)\<lparr>writing_poll_res := 0\<rparr>"

text \<open>The zeroed session with a command line in \<open>rx_buffer\<close>.\<close>

definition holding :: "string \<Rightarrow> fastboot" where
  "holding line = fastboot_zero\<lparr>rx_buffer := mem_write (rx_buffer fastboot_zero) 0 line\<rparr>"

text \<open>
  A session that has answered \<open>getvar:abcdef0123456789\<close> and has then received the 13
  bytes \<open>download:0000\<close>: three passes from the start of the loop.
\<close>

definition after_short_download :: fastboot where
  "after_short_download =
     reached (fastboot_passes cfg_example
       [io_recv 0 ''getvar:abcdef0123456789'', io_sent 0, io_recv 0 ''download:0000'']
       (fastboot_start (io_idle 0)))"

text \<open>
  The session after the 17 bytes \<open>download:00000000\<close> have been received and the gate
  has opened: two passes from the start of the loop.
\<close>

definition after_empty_download :: fastboot where
  "after_empty_download =
     reached (fastboot_passes cfg_example [io_recv 0 ''download:00000000'', io_idle 0]
       (fastboot_start (io_idle 0)))"

text \<open>
  The session after a line of 44 bytes that is no known command has been received and
  the gate has opened: two passes from the start of the loop.
\<close>

definition after_long_unknown :: fastboot where
  "after_long_unknown =
     reached (fastboot_passes cfg_example
       [io_recv 0 ''flash:01234567890123456789012345678901234567'', io_idle 0]
       (fastboot_start (io_idle 0)))"

text \<open>
  A download of \<open>0x2000\<close> bytes that the transport delivers in two reads of \<open>0x1000\<close>
  bytes: the command is received, the gate opens and the \<open>DATA\<close> response leaves, then the
  two reads complete. The timer shows 1, 2, 200 and 400 ms in the four passes.
  \<open>in_download\<close> is the session between the two reads.
\<close>

definition two_chunk_passes :: "usb_io list" where
  "two_chunk_passes =
     [io_recv 1 ''download:00002000'', io_sent 2, io_chunk 200 0x1000, io_chunk 400 0x1000]"

definition in_download :: fastboot where
  "in_download =
     reached (fastboot_passes cfg_example (take 3 two_chunk_passes) (fastboot_start (io_idle 0)))"

definition after_download :: fastboot where
  "after_download =
     reached (fastboot_passes cfg_example two_chunk_passes (fastboot_start (io_idle 0)))"

text \<open>A pass in which the host resets the control endpoint.\<close>

definition io_reset :: usb_io where
  "io_reset = (io_idle 0)\<lparr>ep0_pending := True\<rparr>"

text \<open>
  A run of the gadget in which the host sends \<open>reboot-bootloader\<close>: the command is
  received, the gate opens and the \<open>OKAY\<close> answer leaves, and the next pass finds TX
  idle.
\<close>

definition reboot_run :: "(int \<times> fastboot) option" where
  "reboot_run =
     usb_device_gadget_fastboot cfg_example 0 0 (io_idle 0)
       [io_recv 0 ''reboot-bootloader'', io_sent 0, io_idle 0]"

section \<open>Properties\<close>

subsection \<open>Strings and frames\<close>

lemma length_response_tag: "length (response_tag tp) = 4"
  by (cases tp) simp_all

lemma NUL_notin_response_tag: "NUL \<notin> set (response_tag tp)"
  by (cases tp) (simp_all add: NUL_def)

lemma c_str_append: "NUL \<notin> set xs \<Longrightarrow> c_str (xs @ ys) = xs @ c_str ys"
  by (induction xs) (auto simp: c_str_def)

lemma c_str_cut: "c_str (xs @ NUL # ys) = c_str xs"
  by (induction xs) (auto simp: c_str_def)

lemma NUL_notin_c_str: "NUL \<notin> set (c_str xs)"
  unfolding c_str_def by (induction xs) auto

lemma c_str_prefix:
  assumes "take n buf = lit" "NUL \<notin> set lit"
  shows "c_str buf = lit @ c_str (drop n buf)"
proof -
  have "buf = lit @ drop n buf"
    using assms(1) append_take_drop_id[of n buf] by simp
  then show ?thesis
    using c_str_append[OF assms(2), of "drop n buf"] by simp
qed

lemma build_frame_eq: "build_frame tp msg fb = fb\<lparr>tx_buffer := frame_bytes tp msg\<rparr>"
proof (cases msg)
  case None
  have "replicate 61 NUL = NUL # replicate 60 NUL"
    using replicate_Suc[of 60 NUL] by simp
  with None show ?thesis
    by (simp add: build_frame_def frame_bytes_def c_strcpy_def mem_write_def
          FASTBOOT_COMMAND_BUFFER_SIZE_def length_response_tag)
next
  case (Some m)
  then show ?thesis
    by (simp add: build_frame_def frame_bytes_def c_strcpy_def c_strncpy_def mem_write_def
          FASTBOOT_COMMAND_BUFFER_SIZE_def length_response_tag)
qed

lemma write_event_frame:
  assumes "length m \<le> 60" "NUL \<notin> set m"
  shows "write_event (frame_bytes tp (Some m)) = WriteEp1In (response_tag tp @ m)"
proof -
  obtain k where k: "61 - length m = Suc k"
    using assms(1) by (cases "61 - length m") auto
  have "c_str ((response_tag tp @ m) @ NUL # replicate k NUL) = c_str (response_tag tp @ m)"
    by (rule c_str_cut)
  also have "\<dots> = response_tag tp @ m"
    using c_str_append[of "response_tag tp @ m" "[]"] assms(2)
    by (simp add: NUL_notin_response_tag c_str_def)
  finally show ?thesis
    using assms(1) k by (simp add: write_event_def frame_bytes_def)
qed

subsection \<open>State entry, response emission, download entry\<close>

lemma tx_enter_send_response_eq:
  "fastboot_tx_enter_send_response io fb =
     fb\<lparr>trace := trace fb @ [write_event (tx_buffer fb)],
        status := raise_status (write_ep1_in_res io \<noteq> 0) FASTBOOT_STATUS_USB_ERROR (status fb),
        tx_state := FASTBOOT_TX_STATE_SEND_RESPONSE\<rparr>"
  by (simp add: fastboot_tx_enter_send_response_def emit_def fastboot_set_status_def
        raise_status_def Let_def)

lemma rx_enter_command_eq:
  "fastboot_rx_enter_command io fb =
     fb\<lparr>trace := trace fb @ [ReadEp1Out RxBuffer 64],
        status := raise_status (read_ep1_out_res io \<noteq> 0) FASTBOOT_STATUS_USB_ERROR (status fb),
        rx_state := FASTBOOT_RX_STATE_COMMAND\<rparr>"
  by (simp add: fastboot_rx_enter_command_def emit_def fastboot_set_status_def
        raise_status_def Let_def FASTBOOT_COMMAND_BUFFER_SIZE_def)

lemma send_response_normal:
  "fastboot_send_response cfg io tp FASTBOOT_DISPOSITION_NORMAL msg fb =
     fb\<lparr>tx_buffer := frame_bytes tp msg,
        trace := trace fb @ [ReadEp1Out RxBuffer 64, write_event (frame_bytes tp msg)],
        status := raise_status (write_ep1_in_res io \<noteq> 0) FASTBOOT_STATUS_USB_ERROR
                    (raise_status (read_ep1_out_res io \<noteq> 0) FASTBOOT_STATUS_USB_ERROR
                       (status fb)),
        rx_state := FASTBOOT_RX_STATE_COMMAND,
        tx_state := FASTBOOT_TX_STATE_SEND_RESPONSE\<rparr>"
  by (simp add: fastboot_send_response.simps build_frame_eq tx_enter_send_response_eq
        rx_enter_command_eq)

lemma send_response_reboot:
  "fastboot_send_response cfg io tp FASTBOOT_DISPOSITION_REBOOT_BOOTLOADER msg fb =
     fb\<lparr>tx_buffer := frame_bytes tp msg,
        trace := trace fb @ [write_event (frame_bytes tp msg)],
        status := raise_status (write_ep1_in_res io \<noteq> 0) FASTBOOT_STATUS_USB_ERROR (status fb),
        rx_state := FASTBOOT_RX_STATE_WAITING_TX_FOR_REBOOT_BOOTLOADER,
        tx_state := FASTBOOT_TX_STATE_SEND_RESPONSE\<rparr>"
  by (simp add: fastboot_send_response.simps build_frame_eq tx_enter_send_response_eq
        fastboot_rx_enter_waiting_tx_for_reboot_bootloader_def)

lemma rx_enter_download_arm:
  assumes "download_head fb < download_size fb"
  shows "fastboot_rx_enter_download cfg io fb =
     fb\<lparr>trace := trace fb @
          [SetTextDownloading (download_head fb div 1024) (download_size fb div 1024),
           ReadEp1Out (DownloadBuffer (download_head fb))
             (min (download_size fb - download_head fb) (USB_EP_BUFFER_MAX_SIZE cfg))],
        status := raise_status (read_ep1_out_res io \<noteq> 0) FASTBOOT_STATUS_USB_ERROR (status fb),
        rx_state := FASTBOOT_RX_STATE_DOWNLOAD\<rparr>"
  using assms
  by (simp add: fastboot_rx_enter_download.simps emit_def fastboot_set_status_def
        raise_status_def Let_def)

lemma got_it_frame:
  "write_event (frame_bytes FASTBOOT_RESPONSE_OKAY (Some ''got it!'')) = WriteEp1In ''OKAYgot it!''"
  using write_event_frame[of "''got it!''" FASTBOOT_RESPONSE_OKAY] by (simp add: NUL_def)

lemma rx_enter_download_done:
  assumes "\<not> download_head fb < download_size fb"
  shows "fastboot_rx_enter_download cfg io fb =
     fb\<lparr>tight_turnaround := False,
        tx_buffer := frame_bytes FASTBOOT_RESPONSE_OKAY (Some ''got it!''),
        trace := trace fb @ [ReadEp1Out RxBuffer 64, WriteEp1In ''OKAYgot it!''],
        status := raise_status (write_ep1_in_res io \<noteq> 0) FASTBOOT_STATUS_USB_ERROR
                    (raise_status (read_ep1_out_res io \<noteq> 0) FASTBOOT_STATUS_USB_ERROR
                       (status fb)),
        rx_state := FASTBOOT_RX_STATE_COMMAND,
        tx_state := FASTBOOT_TX_STATE_SEND_RESPONSE\<rparr>"
  using assms
  by (simp add: fastboot_rx_enter_download.simps send_response_normal got_it_frame)

lemma send_response_download_arm:
  assumes "download_head fb < download_size fb"
  shows "fastboot_send_response cfg io tp FASTBOOT_DISPOSITION_DOWNLOAD msg fb =
     fb\<lparr>tx_buffer := frame_bytes tp msg,
        trace := trace fb @
          [SetTextDownloading (download_head fb div 1024) (download_size fb div 1024),
           ReadEp1Out (DownloadBuffer (download_head fb))
             (min (download_size fb - download_head fb) (USB_EP_BUFFER_MAX_SIZE cfg)),
           write_event (frame_bytes tp msg)],
        status := raise_status (write_ep1_in_res io \<noteq> 0) FASTBOOT_STATUS_USB_ERROR
                    (raise_status (read_ep1_out_res io \<noteq> 0) FASTBOOT_STATUS_USB_ERROR
                       (status fb)),
        rx_state := FASTBOOT_RX_STATE_DOWNLOAD,
        tx_state := FASTBOOT_TX_STATE_SEND_RESPONSE\<rparr>"
  using assms
  by (simp add: fastboot_send_response.simps build_frame_eq tx_enter_send_response_eq
        rx_enter_download_arm)

lemma send_response_download_done:
  assumes "\<not> download_head fb < download_size fb"
  shows "fastboot_send_response cfg io tp FASTBOOT_DISPOSITION_DOWNLOAD msg fb =
     fb\<lparr>tight_turnaround := False,
        tx_buffer := frame_bytes FASTBOOT_RESPONSE_OKAY (Some ''got it!''),
        trace := trace fb @
          [ReadEp1Out RxBuffer 64, WriteEp1In ''OKAYgot it!'', WriteEp1In ''OKAYgot it!''],
        status := raise_status (write_ep1_in_res io \<noteq> 0) FASTBOOT_STATUS_USB_ERROR
                   (raise_status (write_ep1_in_res_nested io \<noteq> 0) FASTBOOT_STATUS_USB_ERROR
                      (raise_status (read_ep1_out_res io \<noteq> 0) FASTBOOT_STATUS_USB_ERROR
                         (status fb))),
        rx_state := FASTBOOT_RX_STATE_COMMAND,
        tx_state := FASTBOOT_TX_STATE_SEND_RESPONSE\<rparr>"
  using assms
  by (simp add: fastboot_send_response.simps build_frame_eq tx_enter_send_response_eq
        rx_enter_download_done got_it_frame)

subsection \<open>The size window\<close>

lemma is_hex_digit_iff:
  "is_hex_digit ch \<longleftrightarrow>
      (48 \<le> (of_char ch :: nat) \<and> (of_char ch :: nat) \<le> 57)
    \<or> (97 \<le> (of_char ch :: nat) \<and> (of_char ch :: nat) \<le> 102)
    \<or> (65 \<le> (of_char ch :: nat) \<and> (of_char ch :: nat) \<le> 70)"
proof -
  define n where "n = (of_char ch :: nat)"
  have ch: "ch = char_of n" by (simp add: n_def)
  have n: "n < 256" by (simp add: n_def)
  have tb: "take_bit 8 n = n" using n by (simp add: take_bit_nat_eq_self)
  have "is_hex_digit ch \<longleftrightarrow> n \<in> {48, 49, 50, 51, 52, 53, 54, 55, 56, 57,
      97, 98, 99, 100, 101, 102, 65, 66, 67, 68, 69, 70}"
    unfolding is_hex_digit_def ch by (simp add: char_of_eq_iff tb)
  also have "\<dots> \<longleftrightarrow> (48 \<le> n \<and> n \<le> 57) \<or> (97 \<le> n \<and> n \<le> 102) \<or> (65 \<le> n \<and> n \<le> 70)"
    by (simp only: insert_iff empty_iff) arith
  finally show ?thesis by (simp add: n_def)
qed

lemma parse_hex_window_None:
  "(parse_hex_window w acc = None) = (\<exists>c\<in>set w. \<not> is_hex_digit c)"
proof (induction w arbitrary: acc)
  case Nil
  then show ?case by simp
next
  case (Cons ch rest)
  show ?case
    using Cons.IH by (simp add: Let_def is_hex_digit_iff)
qed

subsection \<open>Branches of the interpreter\<close>

lemma download_prefix_branch:
  assumes "take 9 buf = ''download:''"
  shows "\<not> strncmp_eq buf ''getvar:'' 7" "\<not> strcmp_eq buf ''reboot-bootloader''"
        "strncmp_eq buf ''download:'' 9"
  using c_str_prefix[OF assms] by (simp_all add: strncmp_eq_def strcmp_eq_def NUL_def)

lemma handle_command_bad_size:
  assumes "take 9 (rx_buffer fb) = ''download:''"
    and "parse_hex_window (take 8 (drop 9 (rx_buffer fb))) 0 = None"
  shows "fastboot_handle_command cfg io fb =
           fastboot_send_response cfg io FASTBOOT_RESPONSE_FAIL FASTBOOT_DISPOSITION_NORMAL
             (Some ''failed to parse size'')
             (emit (HandleCommand (rx_state fb) (tx_state fb) (c_str (rx_buffer fb))) fb)"
  using assms(2) download_prefix_branch[OF assms(1)]
  by (simp add: fastboot_handle_command_def emit_def Let_def)

lemma handle_command_too_large:
  assumes "take 9 (rx_buffer fb) = ''download:''"
    and "parse_hex_window (take 8 (drop 9 (rx_buffer fb))) 0 = Some S"
    and "fastboot_download_capacity cfg < S"
  shows "fastboot_handle_command cfg io fb =
           fastboot_send_response cfg io FASTBOOT_RESPONSE_FAIL FASTBOOT_DISPOSITION_NORMAL
             (Some ''download size too large'')
             (emit (HandleCommand (rx_state fb) (tx_state fb) (c_str (rx_buffer fb))) fb)"
  using assms(2,3) download_prefix_branch[OF assms(1)]
  by (simp add: fastboot_handle_command_def emit_def Let_def)

lemma handle_command_download:
  assumes "take 9 (rx_buffer fb) = ''download:''"
    and "parse_hex_window (take 8 (drop 9 (rx_buffer fb))) 0 = Some S"
    and "\<not> fastboot_download_capacity cfg < S"
  shows "fastboot_handle_command cfg io fb =
           fastboot_send_response cfg io FASTBOOT_RESPONSE_DATA FASTBOOT_DISPOSITION_DOWNLOAD
             (Some (s_printf_08x False S))
             ((emit (HandleCommand (rx_state fb) (tx_state fb) (c_str (rx_buffer fb))) fb)
                \<lparr>download_head := 0, download_amount := 0, download_size := S\<rparr>)"
  using assms(2,3) download_prefix_branch[OF assms(1)]
  by (simp add: fastboot_handle_command_def emit_def Let_def)

lemma replicate_update_same: "(replicate n x)[i := x] = replicate n x"
  by (induction n arbitrary: i) (simp_all split: nat.split)

text \<open>
  The array \<open>message\<close> after \<open>strncat\<close> and \<open>message[60] = 0\<close>: it holds the first 60
  bytes of \<open>unknown command: \<close> and the line, and \<open>strncat\<close> has written behind the
  array exactly when the line has 44 bytes or more.
\<close>

lemma c_str_NULs: "c_str (replicate n NUL) = []"
  by (cases n) (simp_all add: c_str_def)

lemma c_str_free: "NUL \<notin> set xs \<Longrightarrow> c_str xs = xs"
  using c_str_append[of xs "[]"] by (simp add: c_str_def)

lemma strncat_fits:
  assumes "NUL \<notin> set p" "length (c_str src) < k"
  shows "c_strncat (p @ replicate k NUL) src k =
           (p @ c_str src @ replicate (k - length (c_str src)) NUL, False)"
proof -
  have "k - length (c_str src) = Suc (k - Suc (length (c_str src)))"
    using assms(2) by simp
  then have "replicate (k - length (c_str src)) NUL =
      NUL # replicate (k - Suc (length (c_str src))) NUL"
    by simp
  then show ?thesis
    using assms by (simp add: c_strncat_def mem_write_def c_str_append c_str_NULs Let_def)
qed

lemma strncat_overrun:
  assumes "NUL \<notin> set p" "k \<le> length (c_str src)"
  shows "c_strncat (p @ replicate k NUL) src k = (p @ take k (c_str src), True)"
  using assms by (simp add: c_strncat_def mem_write_def c_str_append c_str_NULs Let_def)

lemma cut_fits:
  assumes "NUL \<notin> set p" "NUL \<notin> set L"
  shows "c_str ((p @ L @ replicate m NUL)[i := NUL]) = take i (p @ L)"
proof (cases "i < length (p @ L)")
  case True
  have "(p @ L @ replicate m NUL)[i := NUL] = ((p @ L) @ replicate m NUL)[i := NUL]"
    by simp
  also have "\<dots> = (p @ L)[i := NUL] @ replicate m NUL"
    using True by (simp only: list_update_append1)
  also have "(p @ L)[i := NUL] = take i (p @ L) @ NUL # drop (Suc i) (p @ L)"
    using True by (rule upd_conv_take_nth_drop)
  finally have "c_str ((p @ L @ replicate m NUL)[i := NUL]) =
      c_str (take i (p @ L) @ NUL # (drop (Suc i) (p @ L) @ replicate m NUL))"
    by simp
  also have "\<dots> = c_str (take i (p @ L))"
    by (rule c_str_cut)
  also have "\<dots> = take i (p @ L)"
  proof (rule c_str_free)
    show "NUL \<notin> set (take i (p @ L))"
      using assms in_set_takeD[of NUL i "p @ L"] by auto
  qed
  finally show ?thesis .
next
  case False
  then have "((p @ L) @ replicate m NUL)[i := NUL] =
      (p @ L) @ (replicate m NUL)[i - length (p @ L) := NUL]"
    by (simp only: list_update_append if_False)
  then have "(p @ L @ replicate m NUL)[i := NUL] = (p @ L) @ replicate m NUL"
    by (simp add: replicate_update_same)
  moreover have "NUL \<notin> set (p @ L)"
    using assms by simp
  ultimately show ?thesis
    using False by (simp add: c_str_append c_str_NULs)
qed

lemma strncat_then_cut:
  assumes "NUL \<notin> set p"
  shows "c_str ((fst (c_strncat (p @ replicate k NUL) src k))[i := NUL]) =
           take i (p @ take k (c_str src))"
    and "snd (c_strncat (p @ replicate k NUL) src k) = (k \<le> length (c_str src))"
proof -
  let ?L = "c_str src"
  show "c_str ((fst (c_strncat (p @ replicate k NUL) src k))[i := NUL]) =
          take i (p @ take k ?L)"
  proof (cases "k \<le> length ?L")
    case True
    have "NUL \<notin> set (take k ?L)"
      using NUL_notin_c_str[of src] in_set_takeD[of NUL k ?L] by blast
    then have "c_str ((p @ take k ?L @ replicate 0 NUL)[i := NUL]) = take i (p @ take k ?L)"
      by (rule cut_fits[OF assms])
    then show ?thesis
      by (simp add: strncat_overrun[OF assms True])
  next
    case False
    then have short: "length ?L < k"
      by simp
    have "c_str ((p @ ?L @ replicate (k - length ?L) NUL)[i := NUL]) = take i (p @ ?L)"
      by (rule cut_fits[OF assms NUL_notin_c_str])
    then show ?thesis
      using short by (simp add: strncat_fits[OF assms short])
  qed
  show "snd (c_strncat (p @ replicate k NUL) src k) = (k \<le> length ?L)"
    using strncat_fits[OF assms, of src k] strncat_overrun[OF assms, of k src]
    by (cases "k \<le> length ?L") simp_all
qed

lemma handle_command_unknown:
  assumes "take 7 (c_str (rx_buffer fb)) \<noteq> ''getvar:''"
    and "c_str (rx_buffer fb) \<noteq> ''reboot-bootloader''"
    and "take 9 (c_str (rx_buffer fb)) \<noteq> ''download:''"
  shows "fastboot_handle_command cfg io fb =
           fastboot_send_response cfg io FASTBOOT_RESPONSE_FAIL FASTBOOT_DISPOSITION_NORMAL
             (Some (take 60 (''unknown command: '' @ c_str (rx_buffer fb))))
             (if 44 \<le> length (c_str (rx_buffer fb))
              then emit MessageOverrun
                     (emit (HandleCommand (rx_state fb) (tx_state fb) (c_str (rx_buffer fb))) fb)
              else emit (HandleCommand (rx_state fb) (tx_state fb) (c_str (rx_buffer fb))) fb)"
proof -
  define p where "p = ''unknown command: ''"
  let ?L = "c_str (rx_buffer fb)"
  have p: "NUL \<notin> set p" and len: "length p = 17"
    by (simp_all add: p_def NUL_def)
  have start: "c_str (p @ replicate 44 NUL) = p"
    using c_str_append[OF p, of "replicate 44 NUL"] by (simp add: c_str_NULs)
  have "take 60 (p @ take 44 ?L) = take 60 (p @ ?L)"
    by (simp add: len)
  then have cut: "c_str ((fst (c_strncat (p @ replicate 44 NUL) (rx_buffer fb) 44))[60 := NUL]) =
      take 60 (p @ ?L)"
    by (simp only: strncat_then_cut(1)[OF p])
  have over: "snd (c_strncat (p @ replicate 44 NUL) (rx_buffer fb) 44) = (44 \<le> length ?L)"
    by (rule strncat_then_cut(2)[OF p])
  have "fastboot_handle_command cfg io fb =
           fastboot_send_response cfg io FASTBOOT_RESPONSE_FAIL FASTBOOT_DISPOSITION_NORMAL
             (Some (take 60 (p @ ?L)))
             (if 44 \<le> length ?L
              then emit MessageOverrun
                     (emit (HandleCommand (rx_state fb) (tx_state fb) ?L) fb)
              else emit (HandleCommand (rx_state fb) (tx_state fb) ?L) fb)"
    unfolding fastboot_handle_command_def[folded p_def]
    using assms
    by (simp add: emit_def Let_def strncmp_eq_def strcmp_eq_def len start cut over)
  then show ?thesis
    unfolding p_def .
qed

lemma tx_frames_append: "tx_frames (xs @ ys) = tx_frames xs @ tx_frames ys"
  by (induction xs rule: tx_frames.induct) simp_all

lemma terminate_behind:
  assumes "length d < length buf"
  shows "(d @ drop (length d) buf)[length d := x] = d @ x # drop (Suc (length d)) buf"
proof -
  have "drop (length d) buf = buf ! length d # drop (Suc (length d)) buf"
    using Cons_nth_drop_Suc[OF assms] by simp
  then show ?thesis
    by (simp add: list_update_append)
qed

subsection \<open>Evaluation of concrete runs\<close>

lemmas run_defs =
  cfg_example_def io_idle_def io_recv_def io_chunk_def io_sent_def holding_def reached_def
  fastboot_start_def fastboot_entry_def fastboot_zero_def fastboot_loop_def
  usb_device_gadget_fastboot_def
  fastboot_exit_def exit_text_def
  loop_head_def loop_steps_def rx_switch_def tx_switch_def system_maintenance_def emit_def
  fastboot_handle_ep0_ctrl_def fastboot_rx_enter_command_def fastboot_tx_enter_idle_def
  fastboot_rx_state_idle_def fastboot_rx_state_command_def usb_read_complete_command_def
  mem_write_def fastboot_rx_state_download_def
  fastboot_rx_enter_waiting_tx_for_process_def fastboot_rx_state_waiting_tx_for_process_def
  fastboot_rx_enter_waiting_tx_for_reboot_bootloader_def
  fastboot_rx_state_waiting_tx_for_reboot_bootloader_def
  fastboot_rx_enter_idle_def fastboot_handle_command_def
  fastboot_tx_state_idle_def fastboot_tx_state_send_response_def fastboot_set_status_def
  fastboot_send_response.simps fastboot_rx_enter_download.simps build_frame_def
  fastboot_tx_enter_send_response_def write_event_def c_strcpy_def c_strncpy_def c_str_def
  c_strncat_def strcmp_eq_def strncmp_eq_def s_printf_08x_def hex_digit_def NUL_def
  FASTBOOT_COMMAND_BUFFER_SIZE_def Let_def

subsection \<open>Every step advances the session\<close>

lemma advances_refl: "advances fb fb"
  by (simp add: advances_def)

lemma advances_trans:
  assumes "advances a b" "advances b c"
  shows "advances a c"
proof -
  obtain xs where xs: "trace b = trace a @ xs" "list_all step_event xs"
    using assms(1) append_take_drop_id[of "length (trace a)" "trace b"]
    by (metis advances_def)
  obtain ys where ys: "trace c = trace b @ ys" "list_all step_event ys"
    using assms(2) append_take_drop_id[of "length (trace b)" "trace c"]
    by (metis advances_def)
  show ?thesis
    using assms xs ys by (auto simp: advances_def)
qed

lemma advances_trace:
  assumes "advances fb fb'"
  obtains evs where "trace fb' = trace fb @ evs" "list_all step_event evs"
  using assms append_take_drop_id[of "length (trace fb)" "trace fb'"]
  by (metis advances_def)

lemma raise_status_mono: "status_value s \<le> status_value (raise_status c n s)"
  by (simp add: raise_status_def)

lemma step_event_write: "step_event (write_event buf)"
  by (simp add: write_event_def)

lemma advances_set_status: "advances fb (snd (fastboot_set_status n fb))"
  by (simp add: advances_def fastboot_set_status_def)

lemma advances_send_response:
  "advances fb (fastboot_send_response cfg io tp d msg fb)"
  by (cases d; cases "download_head fb < download_size fb")
     (simp_all add: advances_def send_response_normal send_response_reboot
        send_response_download_arm send_response_download_done step_event_write
        raise_status_mono order_trans[OF raise_status_mono raise_status_mono]
        order_trans[OF raise_status_mono order_trans[OF raise_status_mono raise_status_mono]])

lemma advances_rx_enter_download:
  "advances fb (fastboot_rx_enter_download cfg io fb)"
  by (cases "download_head fb < download_size fb")
     (simp_all add: advances_def rx_enter_download_arm rx_enter_download_done
        raise_status_mono order_trans[OF raise_status_mono raise_status_mono])

lemma handle_command_rule:
  assumes "\<And>tp d msg. d \<noteq> FASTBOOT_DISPOSITION_DOWNLOAD \<Longrightarrow>
             (d = FASTBOOT_DISPOSITION_REBOOT_BOOTLOADER \<Longrightarrow>
                tp = FASTBOOT_RESPONSE_OKAY \<and> msg = Some []) \<Longrightarrow>
             P (fastboot_send_response cfg io tp d msg
                  (emit (HandleCommand (rx_state fb) (tx_state fb) (c_str (rx_buffer fb))) fb))"
    and "\<And>S. P (fastboot_send_response cfg io FASTBOOT_RESPONSE_DATA
                   FASTBOOT_DISPOSITION_DOWNLOAD (Some (s_printf_08x False S))
                   ((emit (HandleCommand (rx_state fb) (tx_state fb) (c_str (rx_buffer fb))) fb)
                      \<lparr>download_head := 0, download_amount := 0, download_size := S\<rparr>))"
    and "\<And>msg. P (fastboot_send_response cfg io FASTBOOT_RESPONSE_FAIL
                     FASTBOOT_DISPOSITION_NORMAL msg
                     (emit MessageOverrun
                        (emit (HandleCommand (rx_state fb) (tx_state fb) (c_str (rx_buffer fb)))
                           fb)))"
  shows "P (fastboot_handle_command cfg io fb)"
  unfolding fastboot_handle_command_def Let_def
  by (auto split: option.split intro!: assms)

lemma advances_handle_command:
  assumes "rx_state fb = FASTBOOT_RX_STATE_IDLE" "tx_state fb = FASTBOOT_TX_STATE_IDLE"
  shows "advances fb (fastboot_handle_command cfg io fb)"
proof (rule handle_command_rule)
  let ?fb1 = "emit (HandleCommand (rx_state fb) (tx_state fb) (c_str (rx_buffer fb))) fb"
  have e: "advances fb ?fb1"
    using assms by (simp add: advances_def emit_def)
  show "advances fb (fastboot_send_response cfg io tp d msg ?fb1)" for tp d msg
    by (rule advances_trans[OF e advances_send_response])
  have e2: "advances fb (?fb1\<lparr>download_head := 0, download_amount := 0, download_size := S\<rparr>)"
    for S
    using assms by (simp add: advances_def emit_def)
  show "advances fb (fastboot_send_response cfg io FASTBOOT_RESPONSE_DATA
          FASTBOOT_DISPOSITION_DOWNLOAD (Some (s_printf_08x False S))
          (?fb1\<lparr>download_head := 0, download_amount := 0, download_size := S\<rparr>))" for S
    by (rule advances_trans[OF e2 advances_send_response])
  have e3: "advances fb (emit MessageOverrun ?fb1)"
    using assms by (simp add: advances_def emit_def)
  show "advances fb (fastboot_send_response cfg io FASTBOOT_RESPONSE_FAIL
          FASTBOOT_DISPOSITION_NORMAL msg (emit MessageOverrun ?fb1))" for msg
    by (rule advances_trans[OF e3 advances_send_response])
qed

lemma advances_rx_switch: "advances fb (snd (rx_switch cfg io fb))"
proof (cases "rx_state fb")
  case FASTBOOT_RX_STATE_INVALID
  then show ?thesis
    by (simp add: rx_switch_def advances_set_status)
next
  case FASTBOOT_RX_STATE_IDLE
  then show ?thesis
    by (simp add: rx_switch_def fastboot_rx_state_idle_def advances_refl)
next
  case FASTBOOT_RX_STATE_COMMAND
  then show ?thesis
    by (simp add: rx_switch_def fastboot_rx_state_command_def usb_read_complete_command_def
          fastboot_rx_enter_waiting_tx_for_process_def emit_def Let_def advances_def
          fastboot_set_status_def)
next
  case FASTBOOT_RX_STATE_DOWNLOAD
  have a: "advances fb (fb\<lparr>trace := trace fb @ [ReadingPoll 0],
             download_amount := reading_poll_amount io,
             download_head := download_head fb + reading_poll_amount io\<rparr>)"
    by (simp add: advances_def)
  show ?thesis
    using FASTBOOT_RX_STATE_DOWNLOAD advances_trans[OF a advances_rx_enter_download]
    by (simp add: rx_switch_def fastboot_rx_state_download_def emit_def Let_def
          fastboot_set_status_def)
       (simp add: advances_def)
next
  case FASTBOOT_RX_STATE_WAITING_TX_FOR_PROCESS
  have a: "advances fb (fastboot_rx_enter_idle fb)"
    by (simp add: advances_def fastboot_rx_enter_idle_def)
  have "tx_state fb = FASTBOOT_TX_STATE_IDLE \<Longrightarrow>
          advances (fastboot_rx_enter_idle fb)
            (fastboot_handle_command cfg io (fastboot_rx_enter_idle fb))"
    by (rule advances_handle_command) (simp_all add: fastboot_rx_enter_idle_def)
  then show ?thesis
    using FASTBOOT_RX_STATE_WAITING_TX_FOR_PROCESS advances_trans[OF a]
    by (simp add: rx_switch_def fastboot_rx_state_waiting_tx_for_process_def advances_refl)
next
  case FASTBOOT_RX_STATE_WAITING_TX_FOR_REBOOT_BOOTLOADER
  then show ?thesis
    by (simp add: rx_switch_def fastboot_rx_state_waiting_tx_for_reboot_bootloader_def
          fastboot_rx_enter_idle_def fastboot_set_status_def advances_def)
qed

lemma advances_tx_switch: "advances fb (snd (tx_switch io fb))"
  by (cases "tx_state fb")
     (simp_all add: tx_switch_def fastboot_tx_state_idle_def fastboot_tx_state_send_response_def
        fastboot_tx_enter_idle_def emit_def Let_def fastboot_set_status_def advances_def)

lemma advances_ep0: "advances fb (fastboot_handle_ep0_ctrl io fb)"
  by (simp add: fastboot_handle_ep0_ctrl_def emit_def Let_def fastboot_set_status_def
        advances_def)

lemma advances_loop_steps: "advances fb (loop_steps cfg io fb)"
proof -
  let ?fb1 = "fastboot_handle_ep0_ctrl io fb"
  let ?fb2 = "snd (rx_switch cfg io ?fb1)"
  let ?fb3 = "snd (tx_switch io ?fb2)"
  have "advances fb ?fb3"
    by (rule advances_trans[OF advances_ep0
          advances_trans[OF advances_rx_switch advances_tx_switch]])
  moreover have "advances ?fb3 (emit ev ?fb3)" if "step_event ev" for ev
    using that by (simp add: advances_def emit_def)
  ultimately show ?thesis
    by (auto simp: loop_steps_def Let_def intro: advances_trans)
qed

lemma advances_loop_head:
  "advances fb (case loop_head io fb of Inl fb' \<Rightarrow> fb' | Inr fb' \<Rightarrow> fb')"
  by (simp add: loop_head_def system_maintenance_def emit_def Let_def advances_def)

lemma advances_passes: "advances fb (reached (fastboot_passes cfg ios fb))"
proof (induction ios arbitrary: fb)
  case Nil
  then show ?case by (simp add: reached_def advances_refl)
next
  case (Cons io ios)
  show ?case
  proof (cases "status fb = FASTBOOT_STATUS_NORMAL")
    case False
    then show ?thesis by (simp add: reached_def advances_refl)
  next
    case True
    show ?thesis
    proof (cases "loop_head io fb")
      case (Inl fb')
      then show ?thesis
        using True advances_loop_head[of fb io] by (simp add: reached_def)
    next
      case (Inr fb')
      have "advances fb fb'"
        using Inr advances_loop_head[of fb io] by simp
      then have "advances fb (reached (fastboot_passes cfg ios (loop_steps cfg io fb')))"
        by (rule advances_trans[OF _ advances_trans[OF advances_loop_steps Cons.IH]])
      then show ?thesis
        using True Inr by simp
    qed
  qed
qed

lemma advances_start:
  "trace (fastboot_start io0) =
     [SetText ''#C7EA46 Status:# Started USB'', Ep0Ctrl (ep0_pending io0), ReadEp1Out RxBuffer 64]"
  "\<not> tight_turnaround (fastboot_start io0)"
  "rx_state (fastboot_start io0) = FASTBOOT_RX_STATE_COMMAND"
  "tx_state (fastboot_start io0) = FASTBOOT_TX_STATE_IDLE"
  by (simp_all add: fastboot_start_def fastboot_entry_def fastboot_zero_def
        fastboot_handle_ep0_ctrl_def
        rx_enter_command_eq fastboot_tx_enter_idle_def emit_def Let_def fastboot_set_status_def)

lemma gate_respected_advances:
  assumes "advances fb fb'" "gate_respected (trace fb)"
  shows "gate_respected (trace fb')"
proof -
  obtain evs where evs: "trace fb' = trace fb @ evs" "list_all step_event evs"
    using assms(1) by (rule advances_trace)
  have "entry_gated ev" if "step_event ev" for ev
    using that by (cases ev) simp_all
  then have "list_all entry_gated evs"
    using evs(2) by (simp add: list_all_iff)
  then show ?thesis
    using assms(2) evs(1) by (simp add: gate_respected_def)
qed

lemma handle_command_first_event:
  "take (Suc (length (trace fb))) (trace (fastboot_handle_command cfg io fb)) =
     trace fb @ [HandleCommand (rx_state fb) (tx_state fb) (c_str (rx_buffer fb))]"
proof (rule handle_command_rule)
  let ?ev = "HandleCommand (rx_state fb) (tx_state fb) (c_str (rx_buffer fb))"
  have *: "take (Suc (length (trace fb))) (trace (fastboot_send_response cfg io tp d msg fb1)) =
             trace fb @ [?ev]" if "trace fb1 = trace fb @ [?ev]" for tp d msg fb1
  proof -
    obtain evs where "trace (fastboot_send_response cfg io tp d msg fb1) = trace fb1 @ evs"
      using advances_send_response[of fb1 cfg io tp d msg] by (rule advances_trace)
    then show ?thesis
      using that by simp
  qed
  show "take (Suc (length (trace fb)))
          (trace (fastboot_send_response cfg io tp d msg (emit ?ev fb))) = trace fb @ [?ev]"
    for tp d msg
    by (rule *) (simp add: emit_def)
  show "take (Suc (length (trace fb)))
          (trace (fastboot_send_response cfg io FASTBOOT_RESPONSE_DATA
             FASTBOOT_DISPOSITION_DOWNLOAD (Some (s_printf_08x False S))
             ((emit ?ev fb)\<lparr>download_head := 0, download_amount := 0, download_size := S\<rparr>))) =
        trace fb @ [?ev]" for S
    by (rule *) (simp add: emit_def)
  have **: "take (Suc (length (trace fb))) (trace (fastboot_send_response cfg io tp d msg fb1)) =
             trace fb @ [?ev]" if "trace fb1 = trace fb @ [?ev, MessageOverrun]" for tp d msg fb1
  proof -
    obtain evs where "trace (fastboot_send_response cfg io tp d msg fb1) = trace fb1 @ evs"
      using advances_send_response[of fb1 cfg io tp d msg] by (rule advances_trace)
    then show ?thesis
      using that by simp
  qed
  show "take (Suc (length (trace fb)))
          (trace (fastboot_send_response cfg io FASTBOOT_RESPONSE_FAIL
             FASTBOOT_DISPOSITION_NORMAL msg (emit MessageOverrun (emit ?ev fb)))) =
        trace fb @ [?ev]" for msg
    by (rule **) (simp add: emit_def)
qed

subsection \<open>Downloads of a positive size\<close>

lemma hex_digit_not_NUL: "hex_digit upper d \<noteq> NUL"
proof -
  let ?digits = "if upper then ''0123456789ABCDEF'' else ''0123456789abcdef''"
  have "d mod 16 < length ?digits"
    by simp
  then have "?digits ! (d mod 16) \<in> set ?digits"
    by (rule nth_mem)
  moreover have "NUL \<notin> set ?digits"
    by (simp add: NUL_def)
  ultimately show ?thesis
    unfolding hex_digit_def by metis
qed

lemma data_frame:
  "write_event (frame_bytes FASTBOOT_RESPONSE_DATA (Some (s_printf_08x False S))) =
     WriteEp1In (''DATA'' @ s_printf_08x False S)"
proof -
  have "length (s_printf_08x False S) \<le> 60" "NUL \<notin> set (s_printf_08x False S)"
    using hex_digit_not_NUL[of False, THEN not_sym] by (simp_all add: s_printf_08x_def)
  then show ?thesis
    using write_event_frame[of "s_printf_08x False S" FASTBOOT_RESPONSE_DATA] by simp
qed

text \<open>
  For a size above 0 and within the capacity the interpreter does what the claim says: it
  resets the three download fields, arms the first download read and hands the \<open>DATA\<close>
  frame to the transport.
\<close>

lemma download_accepted:
  assumes "take 9 (rx_buffer fb) = ''download:''"
    and "parse_hex_window (take 8 (drop 9 (rx_buffer fb))) 0 = Some S"
    and "S \<le> fastboot_download_capacity cfg" and "0 < S"
  shows "trace (fastboot_handle_command cfg io fb) =
           trace fb @ [HandleCommand (rx_state fb) (tx_state fb) (c_str (rx_buffer fb)),
                       SetTextDownloading 0 (S div 1024),
                       ReadEp1Out (DownloadBuffer 0) (min S (USB_EP_BUFFER_MAX_SIZE cfg)),
                       WriteEp1In (''DATA'' @ s_printf_08x False S)]"
    and "download_head (fastboot_handle_command cfg io fb) = 0"
    and "download_amount (fastboot_handle_command cfg io fb) = 0"
    and "download_size (fastboot_handle_command cfg io fb) = S"
    and "rx_state (fastboot_handle_command cfg io fb) = FASTBOOT_RX_STATE_DOWNLOAD"
proof -
  have c: "\<not> fastboot_download_capacity cfg < S"
    using assms(3) by simp
  show "trace (fastboot_handle_command cfg io fb) =
           trace fb @ [HandleCommand (rx_state fb) (tx_state fb) (c_str (rx_buffer fb)),
                       SetTextDownloading 0 (S div 1024),
                       ReadEp1Out (DownloadBuffer 0) (min S (USB_EP_BUFFER_MAX_SIZE cfg)),
                       WriteEp1In (''DATA'' @ s_printf_08x False S)]"
    and "download_head (fastboot_handle_command cfg io fb) = 0"
    and "download_amount (fastboot_handle_command cfg io fb) = 0"
    and "download_size (fastboot_handle_command cfg io fb) = S"
    and "rx_state (fastboot_handle_command cfg io fb) = FASTBOOT_RX_STATE_DOWNLOAD"
    using assms(4) data_frame[of S]
    by (simp_all add: handle_command_download[OF assms(1,2) c] send_response_download_arm
          emit_def)
qed

text \<open>
  A completed download read moves the head on by the amount received. Below the size the
  next read is armed; at the size (or beyond) \<open>OKAYgot it!\<close> is emitted, behind the
  arming of the command read.
\<close>

lemma download_read_completed:
  assumes "reading_poll_res io = 0"
  shows "download_head fb + reading_poll_amount io < download_size fb \<Longrightarrow>
           trace (fastboot_rx_state_download cfg io fb) =
             trace fb @ [ReadingPoll 0,
               SetTextDownloading ((download_head fb + reading_poll_amount io) div 1024)
                 (download_size fb div 1024),
               ReadEp1Out (DownloadBuffer (download_head fb + reading_poll_amount io))
                 (min (download_size fb - (download_head fb + reading_poll_amount io))
                      (USB_EP_BUFFER_MAX_SIZE cfg))]"
    and "\<not> download_head fb + reading_poll_amount io < download_size fb \<Longrightarrow>
           trace (fastboot_rx_state_download cfg io fb) =
             trace fb @ [ReadingPoll 0, ReadEp1Out RxBuffer 64, WriteEp1In ''OKAYgot it!'']"
  using assms
  by (simp_all add: fastboot_rx_state_download_def emit_def Let_def rx_enter_download_arm
        rx_enter_download_done)

subsection \<open>The size window parses what \<open>s_printf\<close> prints\<close>

lemma nibble_below_16: "unat (x AND (15 :: u32)) < 16"
  using word_and_le1[of x 15] by (simp add: word_le_nat_alt)

lemma parse_hex_window_digit:
  assumes "d < 16"
  shows "parse_hex_window (hex_digit upper d # rest) acc =
           parse_hex_window rest (push_bit 4 acc OR of_nat d)"
proof -
  have "d \<in> {0, 1, 2, 3, 4, 5, 6, 7, 8, 9, 10, 11, 12, 13, 14, 15}"
    using assms by (simp only: insert_iff empty_iff) arith
  then show ?thesis
    by (cases upper; elim insertE emptyE; simp add: hex_digit_def Let_def)
qed

lemma nibble_rebuild:
  fixes S :: u32
  shows "push_bit 4 (drop_bit (4 + m) S) OR (drop_bit m S AND 15) = drop_bit m S"
proof -
  have m: "(15 :: u32) = mask 4"
    by (simp add: mask_eq_exp_minus_1)
  show ?thesis
    unfolding m
    by (rule bit_eqI) (auto simp: bit_simps)
qed

lemma parse_hex_window_printed:
  "parse_hex_window (s_printf_08x upper S) 0 = Some S"
proof -
  have top: "drop_bit 28 S AND 15 = drop_bit 28 S"
    using nibble_rebuild[of 28 S] by simp
  have step: "parse_hex_window (hex_digit upper (unat (drop_bit m S AND 15)) # rest)
                (drop_bit (4 + m) S) = parse_hex_window rest (drop_bit m S)" for m rest
    by (subst parse_hex_window_digit[OF nibble_below_16]) (simp add: nibble_rebuild)
  have first: "parse_hex_window (hex_digit upper (unat (drop_bit 28 S AND 15)) # rest) 0 =
                 parse_hex_window rest (drop_bit 28 S)" for rest
    by (subst parse_hex_window_digit[OF nibble_below_16]) (simp add: top)
  show ?thesis
    using step[of 24] step[of 20] step[of 16] step[of 12] step[of 8] step[of 4] step[of 0]
    by (simp add: s_printf_08x_def first del: parse_hex_window.simps(2))
qed

text \<open>
  The claim about downloads, for every size above 0 and within the capacity: the command
  \<open>download:\<close> followed by the 8 hex digits of the size, in either case, resets the three
  download fields, arms the first download read and hands \<open>DATA\<close> with the 8 lowercase
  hex digits of the size to the transport.
\<close>

lemma download_every_positive_size:
  assumes "take 17 (rx_buffer fb) = ''download:'' @ s_printf_08x upper S"
    and "0 < S" and "S \<le> fastboot_download_capacity cfg"
  shows "trace (fastboot_handle_command cfg io fb) =
           trace fb @ [HandleCommand (rx_state fb) (tx_state fb) (c_str (rx_buffer fb)),
                       SetTextDownloading 0 (S div 1024),
                       ReadEp1Out (DownloadBuffer 0) (min S (USB_EP_BUFFER_MAX_SIZE cfg)),
                       WriteEp1In (''DATA'' @ s_printf_08x False S)]
       \<and> download_head (fastboot_handle_command cfg io fb) = 0
       \<and> download_amount (fastboot_handle_command cfg io fb) = 0
       \<and> download_size (fastboot_handle_command cfg io fb) = S
       \<and> rx_state (fastboot_handle_command cfg io fb) = FASTBOOT_RX_STATE_DOWNLOAD"
proof -
  have len: "length (s_printf_08x upper S) = 8"
    by (simp add: s_printf_08x_def)
  have "take 9 (take 17 (rx_buffer fb)) = ''download:''"
    unfolding assms(1) by simp
  then have pre: "take 9 (rx_buffer fb) = ''download:''"
    by simp
  have "drop 9 (take 17 (rx_buffer fb)) = s_printf_08x upper S"
    unfolding assms(1) by simp
  then have "take 8 (drop 9 (rx_buffer fb)) = s_printf_08x upper S"
    by (simp add: drop_take)
  then have parse: "parse_hex_window (take 8 (drop 9 (rx_buffer fb))) 0 = Some S"
    by (simp add: parse_hex_window_printed)
  show ?thesis
    using download_accepted[OF pre parse assms(3,2)] by simp
qed

subsection \<open>The flag \<open>tight_turnaround\<close>\<close>

text \<open>No run of the loop from its start ever sets the flag.\<close>

lemma tight_turnaround_never_set:
  "\<not> tight_turnaround (reached (fastboot_passes cfg ios (fastboot_start io0)))"
  using advances_passes[of "fastboot_start io0" cfg ios] advances_start(2)[of io0]
  by (simp add: advances_def)

subsection \<open>The reboot answer\<close>

lemma okay_progress_snoc:
  "okay_progress_of (evs @ [ev]) = okay_step (okay_progress_of evs) ev"
  by (simp add: okay_progress_of_def)

lemma okay_progress_append:
  "okay_progress_of (evs @ ev # evs') = foldl okay_step (okay_step (okay_progress_of evs) ev) evs'"
  by (simp add: okay_progress_of_def)

lemma okay_step_quiet:
  "okay_step p (ReadEp1Out t n) = p" "okay_step p (ReadingPoll r) = p"
  "okay_step p (Ep0Ctrl b) = p" "okay_step p (SetText s) = p"
  "okay_step p (SetTextDownloading h z) = p" "okay_step p (SetTextStates rn tn) = p"
  "okay_step p (SetTextInvalidState rx tx) = p" "okay_step p MinervaPeriodicTraining = p"
  "okay_step p SystemMaintenance = p" "okay_step p (HandleCommand rx tx line) = p"
  "okay_step p MessageOverrun = p"
  by (cases p; simp)+

lemma okay_step_suspended:
  "okay_step p (GetSuspended b) = (if p = Sent then Ticked else p)"
  by (cases p) simp_all

lemma okay_step_writing_poll:
  "okay_step p (WritingPoll r) = (if p = Armed \<and> r = 0 then Sent else p)"
  by (cases p) simp_all

lemma okay_frame:
  "write_event (frame_bytes FASTBOOT_RESPONSE_OKAY (Some [])) = WriteEp1In ''OKAY''"
  using write_event_frame[of "[]" FASTBOOT_RESPONSE_OKAY] by simp

lemmas okay_simps =
  okay_progress_snoc okay_progress_append okay_step_quiet okay_step_suspended
  okay_step_writing_poll

lemma reboot_mid_imp_inv: "reboot_mid fb \<Longrightarrow> reboot_inv fb"
  by (auto simp: reboot_mid_def reboot_inv_def)

lemma reboot_mid_loop_head:
  assumes "reboot_inv fb" "status fb = FASTBOOT_STATUS_NORMAL" "loop_head io fb = Inr fb1"
  shows "reboot_mid fb1"
  using assms
  by (auto simp: reboot_inv_def reboot_mid_def loop_head_def system_maintenance_def emit_def
        Let_def okay_simps split: if_splits)

lemma reboot_inv_loop_head:
  assumes "reboot_inv fb" "status fb = FASTBOOT_STATUS_NORMAL" "loop_head io fb = Inl fb1"
  shows "reboot_inv fb1"
  using assms
  by (auto simp: reboot_inv_def loop_head_def system_maintenance_def emit_def
        Let_def okay_simps split: if_splits)

lemma reboot_mid_ep0:
  assumes "reboot_mid fb"
  shows "reboot_mid (fastboot_handle_ep0_ctrl io fb)"
  using assms
  by (auto simp: reboot_mid_def fastboot_handle_ep0_ctrl_def emit_def Let_def
        fastboot_set_status_def okay_simps split: if_splits)

lemma raise_status_usb_not_reboot:
  "s \<noteq> FASTBOOT_STATUS_REBOOT_BOOTLOADER \<Longrightarrow>
     raise_status c FASTBOOT_STATUS_USB_ERROR s \<noteq> FASTBOOT_STATUS_REBOOT_BOOTLOADER"
  by (simp add: raise_status_def)

lemma reboot_inv_send_response:
  assumes "status fb \<noteq> FASTBOOT_STATUS_REBOOT_BOOTLOADER"
    and "d = FASTBOOT_DISPOSITION_REBOOT_BOOTLOADER \<Longrightarrow>
           tp = FASTBOOT_RESPONSE_OKAY \<and> msg = Some []"
  shows "reboot_inv (fastboot_send_response cfg io tp d msg fb)"
  using assms
  by (cases d; cases "download_head fb < download_size fb")
     (simp_all add: reboot_inv_def send_response_normal send_response_reboot
        send_response_download_arm send_response_download_done okay_frame okay_simps
        raise_status_usb_not_reboot)

lemma reboot_inv_handle_command:
  assumes "status fb \<noteq> FASTBOOT_STATUS_REBOOT_BOOTLOADER"
  shows "reboot_inv (fastboot_handle_command cfg io fb)"
proof (rule handle_command_rule)
  show "reboot_inv (fastboot_send_response cfg io tp d msg
          (emit (HandleCommand (rx_state fb) (tx_state fb) (c_str (rx_buffer fb))) fb))"
    if "d = FASTBOOT_DISPOSITION_REBOOT_BOOTLOADER \<Longrightarrow>
          tp = FASTBOOT_RESPONSE_OKAY \<and> msg = Some []" for tp d msg
    using that assms by (intro reboot_inv_send_response) (simp_all add: emit_def)
  show "reboot_inv (fastboot_send_response cfg io FASTBOOT_RESPONSE_DATA
          FASTBOOT_DISPOSITION_DOWNLOAD (Some (s_printf_08x False S))
          ((emit (HandleCommand (rx_state fb) (tx_state fb) (c_str (rx_buffer fb))) fb)
             \<lparr>download_head := 0, download_amount := 0, download_size := S\<rparr>))" for S
    using assms by (intro reboot_inv_send_response) (simp_all add: emit_def)
  show "reboot_inv (fastboot_send_response cfg io FASTBOOT_RESPONSE_FAIL
          FASTBOOT_DISPOSITION_NORMAL msg
          (emit MessageOverrun
             (emit (HandleCommand (rx_state fb) (tx_state fb) (c_str (rx_buffer fb))) fb)))"
    for msg
    using assms by (intro reboot_inv_send_response) (simp_all add: emit_def)
qed

lemma reboot_inv_rx_enter_download:
  assumes "status fb \<noteq> FASTBOOT_STATUS_REBOOT_BOOTLOADER"
  shows "reboot_inv (fastboot_rx_enter_download cfg io fb)"
  using assms
  by (cases "download_head fb < download_size fb")
     (simp_all add: reboot_inv_def rx_enter_download_arm rx_enter_download_done
        raise_status_usb_not_reboot)

lemma reboot_inv_rx_switch:
  assumes "reboot_mid fb"
  shows "reboot_inv (snd (rx_switch cfg io fb))"
proof (cases "rx_state fb")
  case FASTBOOT_RX_STATE_INVALID
  then show ?thesis
    using assms
    by (auto simp: rx_switch_def reboot_mid_def reboot_inv_def fastboot_set_status_def)
next
  case FASTBOOT_RX_STATE_IDLE
  then show ?thesis
    using assms
    by (simp add: rx_switch_def fastboot_rx_state_idle_def reboot_mid_imp_inv)
next
  case FASTBOOT_RX_STATE_COMMAND
  then show ?thesis
    using assms
    by (auto simp: rx_switch_def reboot_mid_def reboot_inv_def fastboot_rx_state_command_def
          usb_read_complete_command_def fastboot_rx_enter_waiting_tx_for_process_def
          emit_def Let_def fastboot_set_status_def)
next
  case FASTBOOT_RX_STATE_DOWNLOAD
  have "reboot_inv (fastboot_rx_enter_download cfg io
          (fb\<lparr>trace := trace fb @ [ReadingPoll 0],
              download_amount := reading_poll_amount io,
              download_head := download_head fb + reading_poll_amount io\<rparr>))"
    using assms by (intro reboot_inv_rx_enter_download) (simp add: reboot_mid_def)
  then show ?thesis
    using FASTBOOT_RX_STATE_DOWNLOAD assms
    by (auto simp: rx_switch_def fastboot_rx_state_download_def emit_def Let_def
          fastboot_set_status_def reboot_mid_def reboot_inv_def)
next
  case FASTBOOT_RX_STATE_WAITING_TX_FOR_PROCESS
  have "reboot_inv (fastboot_handle_command cfg io (fastboot_rx_enter_idle fb))"
    using assms
    by (intro reboot_inv_handle_command) (simp add: reboot_mid_def fastboot_rx_enter_idle_def)
  then show ?thesis
    using FASTBOOT_RX_STATE_WAITING_TX_FOR_PROCESS assms
    by (simp add: rx_switch_def fastboot_rx_state_waiting_tx_for_process_def
          reboot_mid_imp_inv)
next
  case FASTBOOT_RX_STATE_WAITING_TX_FOR_REBOOT_BOOTLOADER
  then show ?thesis
    using assms
    by (auto simp: rx_switch_def fastboot_rx_state_waiting_tx_for_reboot_bootloader_def
          fastboot_rx_enter_idle_def fastboot_set_status_def reboot_mid_def reboot_inv_def)
qed

lemma reboot_inv_tx_switch:
  assumes "reboot_inv fb"
  shows "reboot_inv (snd (tx_switch io fb))"
  using assms
  by (cases "tx_state fb")
     (auto simp: tx_switch_def fastboot_tx_state_idle_def fastboot_tx_state_send_response_def
        fastboot_tx_enter_idle_def emit_def Let_def fastboot_set_status_def reboot_inv_def
        okay_simps split: if_splits)

lemma reboot_inv_loop_steps:
  assumes "reboot_mid fb"
  shows "reboot_inv (loop_steps cfg io fb)"
proof -
  let ?fb3 = "snd (tx_switch io (snd (rx_switch cfg io (fastboot_handle_ep0_ctrl io fb))))"
  have "reboot_inv ?fb3"
    by (intro reboot_inv_tx_switch reboot_inv_rx_switch reboot_mid_ep0 assms)
  moreover have "reboot_inv (emit (SetTextStates a b) ?fb3)" if "reboot_inv ?fb3" for a b
    using that by (simp add: reboot_inv_def emit_def okay_simps)
  ultimately show ?thesis
    by (simp add: loop_steps_def Let_def)
qed

lemma reboot_inv_passes:
  assumes "reboot_inv fb"
  shows "reboot_inv (reached (fastboot_passes cfg ios fb))"
  using assms
proof (induction ios arbitrary: fb)
  case Nil
  then show ?case by (simp add: reached_def)
next
  case (Cons io ios)
  show ?case
  proof (cases "status fb = FASTBOOT_STATUS_NORMAL")
    case False
    then show ?thesis using Cons.prems by (simp add: reached_def)
  next
    case True
    show ?thesis
    proof (cases "loop_head io fb")
      case (Inl fb')
      then show ?thesis
        using True reboot_inv_loop_head[OF Cons.prems True Inl] by (simp add: reached_def)
    next
      case (Inr fb')
      have "reboot_inv (loop_steps cfg io fb')"
        by (rule reboot_inv_loop_steps[OF reboot_mid_loop_head[OF Cons.prems True Inr]])
      then have "reboot_inv (reached (fastboot_passes cfg ios (loop_steps cfg io fb')))"
        by (rule Cons.IH)
      then show ?thesis
        using True Inr by simp
    qed
  qed
qed

lemma reboot_inv_start: "reboot_inv (fastboot_start io0)"
  by (simp add: reboot_inv_def advances_start fastboot_start_def fastboot_entry_def
        fastboot_zero_def
        fastboot_handle_ep0_ctrl_def rx_enter_command_eq fastboot_tx_enter_idle_def emit_def
        Let_def fastboot_set_status_def raise_status_def)

lemma no_teardown_in_loop:
  assumes "advances fb fb'" "ReloadNyx \<notin> set (trace fb)" "\<forall>a b. UsbdEnd a b \<notin> set (trace fb)"
  shows "ReloadNyx \<notin> set (trace fb') \<and> (\<forall>a b. UsbdEnd a b \<notin> set (trace fb'))"
proof -
  obtain evs where evs: "trace fb' = trace fb @ evs" "list_all step_event evs"
    using assms(1) by (rule advances_trace)
  have "ev \<noteq> ReloadNyx \<and> (\<forall>a b. ev \<noteq> UsbdEnd a b)" if "step_event ev" for ev
    using that by (cases ev) simp_all
  then have "ReloadNyx \<notin> set evs \<and> (\<forall>a b. UsbdEnd a b \<notin> set evs)"
    using evs(2) by (auto simp: list_all_iff)
  then show ?thesis
    using assms(2,3) evs(1) by simp
qed

subsection \<open>Unknown commands\<close>

text \<open>
  What the interpreter does with a line that is no known command: it hands the frame
  \<open>FAIL\<close>, \<open>unknown command: \<close> and the line to the transport, the message cut to its
  first 60 bytes, and it writes behind \<open>message\<close> exactly when the line has 44 bytes or
  more.
\<close>

lemma unknown_command_frame:
  assumes "take 7 (c_str (rx_buffer fb)) \<noteq> ''getvar:''"
    and "c_str (rx_buffer fb) \<noteq> ''reboot-bootloader''"
    and "take 9 (c_str (rx_buffer fb)) \<noteq> ''download:''"
  shows "trace (fastboot_handle_command cfg io fb) =
           trace fb @ HandleCommand (rx_state fb) (tx_state fb) (c_str (rx_buffer fb)) #
             (if 44 \<le> length (c_str (rx_buffer fb)) then [MessageOverrun] else []) @
             [ReadEp1Out RxBuffer 64,
              WriteEp1In (''FAIL'' @ take 60 (''unknown command: '' @ c_str (rx_buffer fb)))]"
    and "length (''FAIL'' @ take 60 (''unknown command: '' @ c_str (rx_buffer fb))) \<le> 64"
    and "rx_state (fastboot_handle_command cfg io fb) = FASTBOOT_RX_STATE_COMMAND"
proof -
  let ?m = "take 60 (''unknown command: '' @ c_str (rx_buffer fb))"
  have "set ?m \<subseteq> set (''unknown command: '' @ c_str (rx_buffer fb))"
    by (rule set_take_subset)
  moreover have "NUL \<notin> set (''unknown command: '' @ c_str (rx_buffer fb))"
    using NUL_notin_c_str[of "rx_buffer fb"] by (simp add: NUL_def)
  ultimately have m: "length ?m \<le> 60" "NUL \<notin> set ?m"
    by auto
  show "trace (fastboot_handle_command cfg io fb) =
          trace fb @ HandleCommand (rx_state fb) (tx_state fb) (c_str (rx_buffer fb)) #
            (if 44 \<le> length (c_str (rx_buffer fb)) then [MessageOverrun] else []) @
            [ReadEp1Out RxBuffer 64, WriteEp1In (''FAIL'' @ ?m)]"
    and "rx_state (fastboot_handle_command cfg io fb) = FASTBOOT_RX_STATE_COMMAND"
    using write_event_frame[OF m, of FASTBOOT_RESPONSE_FAIL]
    by (simp_all add: handle_command_unknown[OF assms] send_response_normal emit_def)
  show "length (''FAIL'' @ ?m) \<le> 64"
    by simp
qed

section \<open>The claims\<close>

text \<open>
  Claim C1, as the code has it. In \<open>fastboot_send_response\<close> the disposition is
  resolved before the write of the response is armed: for NORMAL the command read is
  armed and \<open>rx_state\<close> is COMMAND; for DOWNLOAD with \<open>download_head\<close> below
  \<open>download_size\<close> the download read is armed and \<open>rx_state\<close> is DOWNLOAD; for
  REBOOT_BOOTLOADER \<open>rx_state\<close> is the gate WAITING_TX_FOR_REBOOT_BOOTLOADER and no read
  is armed. In each of these cases the write of the frame is the last entry the call adds
  to the log, behind the read.
\<close>

theorem send_response_arms_rx_first:
  "trace (fastboot_send_response cfg io tp FASTBOOT_DISPOSITION_NORMAL msg fb) =
     trace fb @ [ReadEp1Out RxBuffer 64, write_event (frame_bytes tp msg)]
   \<and> rx_state (fastboot_send_response cfg io tp FASTBOOT_DISPOSITION_NORMAL msg fb) =
       FASTBOOT_RX_STATE_COMMAND
   \<and> tx_state (fastboot_send_response cfg io tp FASTBOOT_DISPOSITION_NORMAL msg fb) =
       FASTBOOT_TX_STATE_SEND_RESPONSE
   \<and> (download_head fb < download_size fb \<longrightarrow>
        trace (fastboot_send_response cfg io tp FASTBOOT_DISPOSITION_DOWNLOAD msg fb) =
          trace fb @
            [SetTextDownloading (download_head fb div 1024) (download_size fb div 1024),
             ReadEp1Out (DownloadBuffer (download_head fb))
               (min (download_size fb - download_head fb) (USB_EP_BUFFER_MAX_SIZE cfg)),
             write_event (frame_bytes tp msg)]
        \<and> rx_state (fastboot_send_response cfg io tp FASTBOOT_DISPOSITION_DOWNLOAD msg fb) =
            FASTBOOT_RX_STATE_DOWNLOAD
        \<and> tx_state (fastboot_send_response cfg io tp FASTBOOT_DISPOSITION_DOWNLOAD msg fb) =
            FASTBOOT_TX_STATE_SEND_RESPONSE)
   \<and> trace (fastboot_send_response cfg io tp FASTBOOT_DISPOSITION_REBOOT_BOOTLOADER msg fb) =
       trace fb @ [write_event (frame_bytes tp msg)]
   \<and> rx_state (fastboot_send_response cfg io tp FASTBOOT_DISPOSITION_REBOOT_BOOTLOADER msg fb)
       = FASTBOOT_RX_STATE_WAITING_TX_FOR_REBOOT_BOOTLOADER
   \<and> tx_state (fastboot_send_response cfg io tp FASTBOOT_DISPOSITION_REBOOT_BOOTLOADER msg fb)
       = FASTBOOT_TX_STATE_SEND_RESPONSE"
  by (simp add: send_response_normal send_response_reboot send_response_download_arm)

theorem send_response_arms_rx_first_witness:
  "trace (fastboot_send_response cfg_example (io_idle 0) FASTBOOT_RESPONSE_DATA
      FASTBOOT_DISPOSITION_DOWNLOAD (Some ''00000010'') (fastboot_zero\<lparr>download_size := 16\<rparr>)) =
     [SetTextDownloading 0 0, ReadEp1Out (DownloadBuffer 0) 16, WriteEp1In ''DATA00000010'']
   \<and> rx_state (fastboot_send_response cfg_example (io_idle 0) FASTBOOT_RESPONSE_DATA
      FASTBOOT_DISPOSITION_DOWNLOAD (Some ''00000010'') (fastboot_zero\<lparr>download_size := 16\<rparr>)) =
     FASTBOOT_RX_STATE_DOWNLOAD"
  using send_response_arms_rx_first[of cfg_example "io_idle 0" FASTBOOT_RESPONSE_DATA
          "Some ''00000010''" "fastboot_zero\<lparr>download_size := 16\<rparr>"]
  by (simp add: fastboot_zero_def cfg_example_def write_event_def frame_bytes_def c_str_def
        NUL_def)

text \<open>
  The claim as it is written fails for the disposition DOWNLOAD when \<open>download_head\<close>
  is not below \<open>download_size\<close> (here both are 0): no download read is armed; the call
  arms the command read, hands \<open>OKAYgot it!\<close> to the transport from inside
  \<open>fastboot_rx_enter_download\<close>, and then arms its own write.
\<close>

theorem download_disposition_arms_no_download_read:
  "trace (fastboot_send_response cfg_example (io_idle 0) FASTBOOT_RESPONSE_DATA
      FASTBOOT_DISPOSITION_DOWNLOAD (Some ''00000000'') fastboot_zero) =
     [ReadEp1Out RxBuffer 64, WriteEp1In ''OKAYgot it!'', WriteEp1In ''OKAYgot it!'']
   \<and> rx_state (fastboot_send_response cfg_example (io_idle 0) FASTBOOT_RESPONSE_DATA
      FASTBOOT_DISPOSITION_DOWNLOAD (Some ''00000000'') fastboot_zero) =
     FASTBOOT_RX_STATE_COMMAND"
  by (simp add: send_response_download_done fastboot_zero_def)

text \<open>
  Claim C2 at the size 0. After the 17 bytes \<open>download:00000000\<close> the three download
  fields are 0, as the claim says, but the frame \<open>DATA00000000\<close> never reaches the
  transport: \<open>fastboot_send_response\<close> builds it, \<open>fastboot_rx_enter_download\<close>
  finds the head at the size and overwrites \<open>tx_buffer\<close> with \<open>OKAYgot it!\<close>, and that
  frame is handed to the transport twice.
\<close>

theorem empty_download_sends_no_data_frame:
  "trace after_empty_download =
     [SetText ''#C7EA46 Status:# Started USB'', Ep0Ctrl False, ReadEp1Out RxBuffer 64,
      GetSuspended False, Ep0Ctrl False, ReadingPoll 0, SetTextStates ''command'' ''idle'',
      GetSuspended False, Ep0Ctrl False,
      HandleCommand FASTBOOT_RX_STATE_IDLE FASTBOOT_TX_STATE_IDLE ''download:00000000'',
      ReadEp1Out RxBuffer 64, WriteEp1In ''OKAYgot it!'', WriteEp1In ''OKAYgot it!'',
      WritingPoll 3, SetTextStates ''wtx process'' ''send response'']
   \<and> tx_frames (trace after_empty_download) = [''OKAYgot it!'', ''OKAYgot it!'']
   \<and> download_head after_empty_download = 0
   \<and> download_amount after_empty_download = 0
   \<and> download_size after_empty_download = 0
   \<and> rx_state after_empty_download = FASTBOOT_RX_STATE_COMMAND
   \<and> c_str (tx_buffer after_empty_download) = ''OKAYgot it!''"
  unfolding after_empty_download_def by code_simp

text \<open>
  Claim C3. The status is a ratchet. A call of \<open>fastboot_set_status\<close> with a status
  below the current one is rejected and leaves the session as it is, for every current
  and every requested status, and no call lowers the status. After the attempts Normal,
  then UsbError, then ProtocolReset, the status is UsbError. A whole run of the loop never
  lowers the status either. Once the status is not Normal the loop is left without a
  further pass: a pass during which the status leaves Normal is run to its end and is the
  last one.
\<close>

theorem status_ratchet:
  "(status_value n < status_value (status fb) \<longrightarrow> fastboot_set_status n fb = (False, fb))
   \<and> status_value (status fb) \<le> status_value (status (snd (fastboot_set_status n fb)))
   \<and> status (snd (fastboot_set_status FASTBOOT_STATUS_PROTOCOL_RESET
         (snd (fastboot_set_status FASTBOOT_STATUS_USB_ERROR
           (snd (fastboot_set_status FASTBOOT_STATUS_NORMAL
             (fb\<lparr>status := FASTBOOT_STATUS_NORMAL\<rparr>))))))) = FASTBOOT_STATUS_USB_ERROR
   \<and> status_value (status fb)
       \<le> status_value (status (reached (fastboot_passes cfg ios fb)))
   \<and> (status fb \<noteq> FASTBOOT_STATUS_NORMAL \<longrightarrow> fastboot_loop cfg ios fb = Some fb)
   \<and> (status fb = FASTBOOT_STATUS_NORMAL \<and> loop_head io fb = Inr fb1
        \<and> status (loop_steps cfg io fb1) \<noteq> FASTBOOT_STATUS_NORMAL \<longrightarrow>
        fastboot_loop cfg (io # ios) fb = Some (loop_steps cfg io fb1))"
proof -
  have run: "status_value (status fb)
       \<le> status_value (status (reached (fastboot_passes cfg ios fb)))"
    using advances_passes[of fb cfg ios] by (simp add: advances_def)
  have left: "status fb \<noteq> FASTBOOT_STATUS_NORMAL \<longrightarrow> fastboot_loop cfg ios fb = Some fb"
    for fb ios
    by (cases ios) (simp_all add: fastboot_loop_def)
  have last: "status fb = FASTBOOT_STATUS_NORMAL \<and> loop_head io fb = Inr fb1
        \<and> status (loop_steps cfg io fb1) \<noteq> FASTBOOT_STATUS_NORMAL \<longrightarrow>
        fastboot_loop cfg (io # ios) fb = Some (loop_steps cfg io fb1)"
    using left[of "loop_steps cfg io fb1" ios] by (simp add: fastboot_loop_def)
  show ?thesis
    using run left[of fb ios] last by (simp add: fastboot_set_status_def)
qed

theorem status_ratchet_witness:
  "fastboot_set_status FASTBOOT_STATUS_PROTOCOL_RESET
     (fastboot_zero\<lparr>status := FASTBOOT_STATUS_USB_ERROR\<rparr>) =
     (False, fastboot_zero\<lparr>status := FASTBOOT_STATUS_USB_ERROR\<rparr>)
   \<and> fastboot_loop cfg_example [io_idle 0]
       (fastboot_zero\<lparr>status := FASTBOOT_STATUS_USB_ERROR\<rparr>) =
     Some (fastboot_zero\<lparr>status := FASTBOOT_STATUS_USB_ERROR\<rparr>)
   \<and> fastboot_loop cfg_example [io_reset, io_idle 0] (fastboot_start (io_idle 0)) =
     Some (loop_steps cfg_example io_reset
            (emit (GetSuspended False) (fastboot_start (io_idle 0))))
   \<and> status (loop_steps cfg_example io_reset
        (emit (GetSuspended False) (fastboot_start (io_idle 0)))) =
     FASTBOOT_STATUS_PROTOCOL_RESET
   \<and> trace (loop_steps cfg_example io_reset
        (emit (GetSuspended False) (fastboot_start (io_idle 0)))) =
     [SetText ''#C7EA46 Status:# Started USB'', Ep0Ctrl False, ReadEp1Out RxBuffer 64,
      GetSuspended False, Ep0Ctrl True, ReadingPoll 3, SetTextStates ''command'' ''idle'']"
proof -
  have a: "fastboot_set_status FASTBOOT_STATUS_PROTOCOL_RESET
     (fastboot_zero\<lparr>status := FASTBOOT_STATUS_USB_ERROR\<rparr>) =
     (False, fastboot_zero\<lparr>status := FASTBOOT_STATUS_USB_ERROR\<rparr>)"
    using status_ratchet[of FASTBOOT_STATUS_PROTOCOL_RESET
            "fastboot_zero\<lparr>status := FASTBOOT_STATUS_USB_ERROR\<rparr>", THEN conjunct1]
    by simp
  have b: "fastboot_loop cfg_example [io_idle 0]
       (fastboot_zero\<lparr>status := FASTBOOT_STATUS_USB_ERROR\<rparr>) =
     Some (fastboot_zero\<lparr>status := FASTBOOT_STATUS_USB_ERROR\<rparr>)"
    using status_ratchet[of _ "fastboot_zero\<lparr>status := FASTBOOT_STATUS_USB_ERROR\<rparr>"
            cfg_example "[io_idle 0]"]
    by simp
  have h: "status (fastboot_start (io_idle 0)) = FASTBOOT_STATUS_NORMAL"
    "loop_head io_reset (fastboot_start (io_idle 0)) =
       Inr (emit (GetSuspended False) (fastboot_start (io_idle 0)))"
    by (simp_all add: run_defs io_reset_def)
  have s: "status (loop_steps cfg_example io_reset
        (emit (GetSuspended False) (fastboot_start (io_idle 0)))) =
     FASTBOOT_STATUS_PROTOCOL_RESET"
    and t: "trace (loop_steps cfg_example io_reset
        (emit (GetSuspended False) (fastboot_start (io_idle 0)))) =
     [SetText ''#C7EA46 Status:# Started USB'', Ep0Ctrl False, ReadEp1Out RxBuffer 64,
      GetSuspended False, Ep0Ctrl True, ReadingPoll 3, SetTextStates ''command'' ''idle'']"
    by (simp_all add: run_defs io_reset_def)
  have c: "fastboot_loop cfg_example [io_reset, io_idle 0] (fastboot_start (io_idle 0)) =
     Some (loop_steps cfg_example io_reset
            (emit (GetSuspended False) (fastboot_start (io_idle 0))))"
    using status_ratchet[of _ "fastboot_start (io_idle 0)" cfg_example "[io_idle 0]" io_reset
            "emit (GetSuspended False) (fastboot_start (io_idle 0))"] h s
    by simp
  show ?thesis
    using a b c s t by blast
qed

text \<open>
  Claim C4. WAITING_TX_FOR_PROCESS is a gate. While \<open>tx_state\<close> is not IDLE the step
  does nothing. When \<open>tx_state\<close> is IDLE the step sets \<open>rx_state\<close> to IDLE and runs
  the interpreter in the same step: the entry into the interpreter is the first thing the
  step adds to the log, and it records RX idle and TX idle. In every run of the loop from
  its start, and in every run of the gadget that returns, every entry into the
  interpreter found RX idle and TX idle.
\<close>

theorem interpreter_gated:
  "(tx_state fb \<noteq> FASTBOOT_TX_STATE_IDLE \<longrightarrow>
      fastboot_rx_state_waiting_tx_for_process cfg io fb = fb)
   \<and> (tx_state fb = FASTBOOT_TX_STATE_IDLE \<longrightarrow>
        fastboot_rx_state_waiting_tx_for_process cfg io fb =
          fastboot_handle_command cfg io (fb\<lparr>rx_state := FASTBOOT_RX_STATE_IDLE\<rparr>)
        \<and> take (Suc (length (trace fb)))
             (trace (fastboot_rx_state_waiting_tx_for_process cfg io fb)) =
           trace fb @ [HandleCommand FASTBOOT_RX_STATE_IDLE FASTBOOT_TX_STATE_IDLE
                         (c_str (rx_buffer fb))])
   \<and> gate_respected (trace (reached (fastboot_passes cfg ios (fastboot_start io0))))
   \<and> (usb_device_gadget_fastboot cfg init_res ep0_init_res io0 ios = Some (res, fin) \<longrightarrow>
        gate_respected (trace fin))"
proof -
  have closed: "tx_state fb \<noteq> FASTBOOT_TX_STATE_IDLE \<longrightarrow>
      fastboot_rx_state_waiting_tx_for_process cfg io fb = fb"
    by (simp add: fastboot_rx_state_waiting_tx_for_process_def)
  have "take (Suc (length (trace (fb\<lparr>rx_state := FASTBOOT_RX_STATE_IDLE\<rparr>))))
          (trace (fastboot_handle_command cfg io (fb\<lparr>rx_state := FASTBOOT_RX_STATE_IDLE\<rparr>))) =
        trace (fb\<lparr>rx_state := FASTBOOT_RX_STATE_IDLE\<rparr>) @
          [HandleCommand (rx_state (fb\<lparr>rx_state := FASTBOOT_RX_STATE_IDLE\<rparr>))
             (tx_state (fb\<lparr>rx_state := FASTBOOT_RX_STATE_IDLE\<rparr>))
             (c_str (rx_buffer (fb\<lparr>rx_state := FASTBOOT_RX_STATE_IDLE\<rparr>)))]"
    by (rule handle_command_first_event)
  then have opened: "tx_state fb = FASTBOOT_TX_STATE_IDLE \<longrightarrow>
        fastboot_rx_state_waiting_tx_for_process cfg io fb =
          fastboot_handle_command cfg io (fb\<lparr>rx_state := FASTBOOT_RX_STATE_IDLE\<rparr>)
        \<and> take (Suc (length (trace fb)))
             (trace (fastboot_rx_state_waiting_tx_for_process cfg io fb)) =
           trace fb @ [HandleCommand FASTBOOT_RX_STATE_IDLE FASTBOOT_TX_STATE_IDLE
                         (c_str (rx_buffer fb))]"
    by (simp add: fastboot_rx_state_waiting_tx_for_process_def fastboot_rx_enter_idle_def)
  have start: "gate_respected (trace (fastboot_start io0))"
    by (simp add: advances_start gate_respected_def)
  have run: "gate_respected (trace (reached (fastboot_passes cfg ios (fastboot_start io0))))"
    by (rule gate_respected_advances[OF advances_passes start])
  have ex: "gate_respected (trace (fastboot_exit (emit ev s)))"
    if "gate_respected (trace s)" "entry_gated ev" for ev s
    using that by (simp add: fastboot_exit_def emit_def Let_def gate_respected_def)
  have quiet: "entry_gated (exit_text s)" for s
    by (cases "status s") (simp_all add: exit_text_def)
  have gadget: "usb_device_gadget_fastboot cfg init_res ep0_init_res io0 ios = Some (res, fin)
      \<longrightarrow> gate_respected (trace fin)"
  proof
    assume r: "usb_device_gadget_fastboot cfg init_res ep0_init_res io0 ios = Some (res, fin)"
    show "gate_respected (trace fin)"
    proof (cases "init_res \<noteq> 0 \<or> ep0_init_res \<noteq> 0")
      case True
      then show ?thesis
        using r
        by (auto simp: usb_device_gadget_fastboot_def Let_def emit_def fastboot_exit_def
              gate_respected_def fastboot_entry_def fastboot_zero_def split: if_splits)
    next
      case False
      then obtain s where s: "fastboot_passes cfg ios (fastboot_start io0) = Inl s"
        and fin: "fin = fastboot_exit (emit (exit_text s) s)"
        using r
        by (auto simp: usb_device_gadget_fastboot_def Let_def fastboot_loop_def
              split: sum.splits)
      have "gate_respected (trace s)"
        using run by (simp add: s reached_def)
      then show ?thesis
        unfolding fin by (rule ex) (rule quiet)
    qed
  qed
  show ?thesis
    using closed opened run gadget by blast
qed

theorem interpreter_gated_witness:
  "fastboot_rx_state_waiting_tx_for_process cfg_example (io_idle 0)
     ((holding ''getvar:version'')\<lparr>tx_state := FASTBOOT_TX_STATE_SEND_RESPONSE\<rparr>) =
     (holding ''getvar:version'')\<lparr>tx_state := FASTBOOT_TX_STATE_SEND_RESPONSE\<rparr>
   \<and> take 1 (trace (fastboot_rx_state_waiting_tx_for_process cfg_example (io_idle 0)
        ((holding ''getvar:version'')\<lparr>tx_state := FASTBOOT_TX_STATE_IDLE\<rparr>))) =
     [HandleCommand FASTBOOT_RX_STATE_IDLE FASTBOOT_TX_STATE_IDLE ''getvar:version'']
   \<and> gate_respected (trace after_empty_download)
   \<and> HandleCommand FASTBOOT_RX_STATE_IDLE FASTBOOT_TX_STATE_IDLE ''download:00000000''
       \<in> set (trace after_empty_download)"
proof -
  have a: "fastboot_rx_state_waiting_tx_for_process cfg_example (io_idle 0)
     ((holding ''getvar:version'')\<lparr>tx_state := FASTBOOT_TX_STATE_SEND_RESPONSE\<rparr>) =
     (holding ''getvar:version'')\<lparr>tx_state := FASTBOOT_TX_STATE_SEND_RESPONSE\<rparr>"
    using interpreter_gated[of "(holding ''getvar:version'')
              \<lparr>tx_state := FASTBOOT_TX_STATE_SEND_RESPONSE\<rparr>" cfg_example "io_idle 0",
            THEN conjunct1]
    by simp
  have b: "take 1 (trace (fastboot_rx_state_waiting_tx_for_process cfg_example (io_idle 0)
        ((holding ''getvar:version'')\<lparr>tx_state := FASTBOOT_TX_STATE_IDLE\<rparr>))) =
     [HandleCommand FASTBOOT_RX_STATE_IDLE FASTBOOT_TX_STATE_IDLE ''getvar:version'']"
  proof -
    have idle: "tx_state ((holding ''getvar:version'')\<lparr>tx_state := FASTBOOT_TX_STATE_IDLE\<rparr>)
                  = FASTBOOT_TX_STATE_IDLE"
      by simp
    show ?thesis
      using interpreter_gated[of "(holding ''getvar:version'')
                \<lparr>tx_state := FASTBOOT_TX_STATE_IDLE\<rparr>" cfg_example "io_idle 0",
              THEN conjunct2, THEN conjunct1, rule_format, OF idle, THEN conjunct2]
      by (simp add: holding_def fastboot_zero_def mem_write_def
            FASTBOOT_COMMAND_BUFFER_SIZE_def c_str_def NUL_def)
  qed
  have c: "gate_respected (trace after_empty_download)"
    unfolding after_empty_download_def
    by (rule interpreter_gated[THEN conjunct2, THEN conjunct2, THEN conjunct1])
  have d: "HandleCommand FASTBOOT_RX_STATE_IDLE FASTBOOT_TX_STATE_IDLE ''download:00000000''
       \<in> set (trace after_empty_download)"
    unfolding after_empty_download_def by (simp add: run_defs replicate_update_same)
  show ?thesis
    using a b c d by blast
qed

text \<open>
  Claim C5. A malformed download command is answered and is no error. When the command
  begins with \<open>download:\<close> and one of the 8 bytes behind the colon is no hex digit,
  the frame handed to the transport is exactly \<open>FAILfailed to parse size\<close>; when the 8
  bytes parse to a size above the capacity, it is exactly
  \<open>FAILdownload size too large\<close>. In both cases \<open>download_head\<close>,
  \<open>download_size\<close> and \<open>download_amount\<close> keep their values, the next command read
  is armed before the frame is handed over, and the status changes only if the transport
  refuses one of the two calls: with both accepted it stays what it was.
\<close>

theorem malformed_download_answered:
  assumes "length (rx_buffer fb) = 65"
    and "take 9 (rx_buffer fb) = ''download:''"
    and "(\<exists>c\<in>set (take 8 (drop 9 (rx_buffer fb))). \<not> is_hex_digit c) \<and>
           msg = ''failed to parse size''
         \<or> (\<exists>S. parse_hex_window (take 8 (drop 9 (rx_buffer fb))) 0 = Some S
                \<and> fastboot_download_capacity cfg < S) \<and>
           msg = ''download size too large''"
  shows "trace (fastboot_handle_command cfg io fb) =
           trace fb @ [HandleCommand (rx_state fb) (tx_state fb) (c_str (rx_buffer fb)),
                       ReadEp1Out RxBuffer 64, WriteEp1In (''FAIL'' @ msg)]
       \<and> download_head (fastboot_handle_command cfg io fb) = download_head fb
       \<and> download_size (fastboot_handle_command cfg io fb) = download_size fb
       \<and> download_amount (fastboot_handle_command cfg io fb) = download_amount fb
       \<and> rx_state (fastboot_handle_command cfg io fb) = FASTBOOT_RX_STATE_COMMAND
       \<and> tx_state (fastboot_handle_command cfg io fb) = FASTBOOT_TX_STATE_SEND_RESPONSE
       \<and> status (fastboot_handle_command cfg io fb) =
           raise_status (read_ep1_out_res io \<noteq> 0 \<or> write_ep1_in_res io \<noteq> 0)
             FASTBOOT_STATUS_USB_ERROR (status fb)
       \<and> (read_ep1_out_res io = 0 \<and> write_ep1_in_res io = 0 \<longrightarrow>
            status (fastboot_handle_command cfg io fb) = status fb)"
proof -
  have m: "length msg \<le> 60" "NUL \<notin> set msg"
    using assms(3) by (auto simp: NUL_def)
  have p: "parse_hex_window (take 8 (drop 9 (rx_buffer fb))) 0 = None
             \<and> msg = ''failed to parse size''
           \<or> (\<exists>S. parse_hex_window (take 8 (drop 9 (rx_buffer fb))) 0 = Some S
                \<and> fastboot_download_capacity cfg < S) \<and> msg = ''download size too large''"
    using assms(3) by (simp add: parse_hex_window_None)
  have "fastboot_handle_command cfg io fb =
          fastboot_send_response cfg io FASTBOOT_RESPONSE_FAIL FASTBOOT_DISPOSITION_NORMAL
            (Some msg)
            (emit (HandleCommand (rx_state fb) (tx_state fb) (c_str (rx_buffer fb))) fb)"
    using p handle_command_bad_size[OF assms(2)] handle_command_too_large[OF assms(2)]
    by auto
  then show ?thesis
    using write_event_frame[OF m, of FASTBOOT_RESPONSE_FAIL]
    by (simp add: send_response_normal emit_def raise_status_def)
qed

theorem malformed_download_answered_witness:
  "trace (fastboot_handle_command cfg_example (io_idle 0) (holding ''download:12G45678'')) =
     [HandleCommand FASTBOOT_RX_STATE_INVALID FASTBOOT_TX_STATE_INVALID ''download:12G45678'',
      ReadEp1Out RxBuffer 64, WriteEp1In ''FAILfailed to parse size'']
   \<and> download_size (fastboot_handle_command cfg_example (io_idle 0)
        (holding ''download:12G45678'')) = 0
   \<and> status (fastboot_handle_command cfg_example (io_idle 0)
        (holding ''download:12G45678'')) = FASTBOOT_STATUS_NORMAL
   \<and> trace (fastboot_handle_command cfg_example (io_idle 0) (holding ''download:08000001'')) =
     [HandleCommand FASTBOOT_RX_STATE_INVALID FASTBOOT_TX_STATE_INVALID ''download:08000001'',
      ReadEp1Out RxBuffer 64, WriteEp1In ''FAILdownload size too large'']
   \<and> download_size (fastboot_handle_command cfg_example (io_idle 0)
        (holding ''download:08000001'')) = 0
   \<and> status (fastboot_handle_command cfg_example (io_idle 0)
        (holding ''download:08000001'')) = FASTBOOT_STATUS_NORMAL"
  using malformed_download_answered[of "holding ''download:12G45678''"
          "''failed to parse size''" cfg_example "io_idle 0"]
        malformed_download_answered[of "holding ''download:08000001''"
          "''download size too large''" cfg_example "io_idle 0"]
  by (simp add: holding_def fastboot_zero_def mem_write_def FASTBOOT_COMMAND_BUFFER_SIZE_def
        NUL_def is_hex_digit_def cfg_example_def io_idle_def c_str_def raise_status_def)

text \<open>
  Claim C6. In every run of the gadget that returns, the restart action is called exactly
  when the final status is REBOOT_BOOTLOADER. It is then the last call of the run, right
  behind the teardown \<open>usbd_end(true, false)\<close>, and neither of the two was called
  before. At that point the log shows that the last frame handed to the transport was
  exactly \<open>OKAY\<close>, that a later poll of the write reported it complete, and that a
  further pass of the loop began after that: the answer was armed in one pass and TX was
  found idle in a later one. When the final status is not REBOOT_BOOTLOADER the run ends
  with the teardown. Inside the loop, however many passes it makes, neither the teardown
  nor the restart action is called.
\<close>

theorem restart_after_teardown_and_okay:
  assumes "usb_device_gadget_fastboot cfg init_res ep0_init_res io0 ios = Some (res, fin)"
  shows "(ReloadNyx \<in> set (trace fin)) = (status fin = FASTBOOT_STATUS_REBOOT_BOOTLOADER)
       \<and> (status fin = FASTBOOT_STATUS_REBOOT_BOOTLOADER \<longrightarrow>
            (\<exists>pre. trace fin =
                     pre @ [SetText ''#C7EA46 Status:# Fastboot ended (rebooting bootloader)'',
                            UsbdEnd True False, ReloadNyx]
                 \<and> ReloadNyx \<notin> set pre
                 \<and> (\<forall>a b. UsbdEnd a b \<notin> set pre)
                 \<and> okay_progress_of pre = Ticked))
       \<and> (status fin \<noteq> FASTBOOT_STATUS_REBOOT_BOOTLOADER \<longrightarrow>
            (\<exists>pre a b. trace fin = pre @ [UsbdEnd a b]))
       \<and> ReloadNyx \<notin> set (trace (reached (fastboot_passes cfg ios' (fastboot_start io0))))
       \<and> (\<forall>a b. UsbdEnd a b
             \<notin> set (trace (reached (fastboot_passes cfg ios' (fastboot_start io0)))))"
proof -
  have inside: "ReloadNyx \<notin> set (trace (reached (fastboot_passes cfg ios' (fastboot_start io0))))
       \<and> (\<forall>a b. UsbdEnd a b
             \<notin> set (trace (reached (fastboot_passes cfg ios' (fastboot_start io0)))))"
    by (rule no_teardown_in_loop[OF advances_passes]) (simp_all add: advances_start)
  have "(ReloadNyx \<in> set (trace fin)) = (status fin = FASTBOOT_STATUS_REBOOT_BOOTLOADER)
       \<and> (status fin = FASTBOOT_STATUS_REBOOT_BOOTLOADER \<longrightarrow>
            (\<exists>pre. trace fin =
                     pre @ [SetText ''#C7EA46 Status:# Fastboot ended (rebooting bootloader)'',
                            UsbdEnd True False, ReloadNyx]
                 \<and> ReloadNyx \<notin> set pre
                 \<and> (\<forall>a b. UsbdEnd a b \<notin> set pre)
                 \<and> okay_progress_of pre = Ticked))
       \<and> (status fin \<noteq> FASTBOOT_STATUS_REBOOT_BOOTLOADER \<longrightarrow>
            (\<exists>pre a b. trace fin = pre @ [UsbdEnd a b]))"
  proof (cases "init_res \<noteq> 0 \<or> ep0_init_res \<noteq> 0")
  case True
  then show ?thesis
    using assms
    by (auto simp: usb_device_gadget_fastboot_def Let_def emit_def fastboot_exit_def
          fastboot_entry_def fastboot_zero_def split: if_splits)
next
  case False
  then obtain s where s: "fastboot_passes cfg ios (fastboot_start io0) = Inl s"
    and fin: "fin = fastboot_exit (emit (exit_text s) s)"
    using assms
    by (auto simp: usb_device_gadget_fastboot_def Let_def fastboot_loop_def split: sum.splits)
  have r: "reached (fastboot_passes cfg ios (fastboot_start io0)) = s"
    by (simp add: s reached_def)
  have adv: "advances (fastboot_start io0) s"
    using advances_passes[of "fastboot_start io0" cfg ios] by (simp add: r)
  have clean: "ReloadNyx \<notin> set (trace s) \<and> (\<forall>a b. UsbdEnd a b \<notin> set (trace s))"
    by (rule no_teardown_in_loop[OF adv]) (simp_all add: advances_start)
  have inv: "reboot_inv s"
    using reboot_inv_passes[OF reboot_inv_start, of cfg ios io0] by (simp add: r)
  have st: "status fin = status s"
    by (simp add: fin fastboot_exit_def emit_def Let_def)
  show ?thesis
  proof (cases "status s = FASTBOOT_STATUS_REBOOT_BOOTLOADER")
    case True
    have p: "okay_progress_of (trace s) = Ticked"
      using inv True by (simp add: reboot_inv_def)
    have t: "trace fin =
               trace s @ [SetText ''#C7EA46 Status:# Fastboot ended (rebooting bootloader)'',
                          UsbdEnd True False, ReloadNyx]"
      using True by (simp add: fin fastboot_exit_def emit_def Let_def exit_text_def)
    have "\<exists>pre. trace fin =
                 pre @ [SetText ''#C7EA46 Status:# Fastboot ended (rebooting bootloader)'',
                        UsbdEnd True False, ReloadNyx]
             \<and> ReloadNyx \<notin> set pre
             \<and> (\<forall>a b. UsbdEnd a b \<notin> set pre)
             \<and> okay_progress_of pre = Ticked"
      using t clean p by blast
    moreover have "ReloadNyx \<in> set (trace fin)"
      by (simp add: t)
    ultimately show ?thesis
      using True st by simp
  next
    case False
    have t: "trace fin = (trace s @ [exit_text s]) @ [UsbdEnd True False]"
      using False by (simp add: fin fastboot_exit_def emit_def Let_def)
    have "exit_text s \<noteq> ReloadNyx"
      by (cases "status s") (simp_all add: exit_text_def)
    then have "ReloadNyx \<notin> set (trace fin)"
      using clean by (simp add: t)
    moreover have "\<exists>pre a b. trace fin = pre @ [UsbdEnd a b]"
      using t by blast
    ultimately show ?thesis
      using False st by simp
  qed
  qed
  then show ?thesis
    using inside by blast
qed

theorem restart_after_teardown_and_okay_witness:
  "\<exists>res fin. reboot_run = Some (res, fin)
     \<and> status fin = FASTBOOT_STATUS_REBOOT_BOOTLOADER
     \<and> ReloadNyx \<in> set (trace fin)
     \<and> tx_frames (trace fin) = [''OKAY'']
     \<and> (\<exists>pre. trace fin =
                pre @ [SetText ''#C7EA46 Status:# Fastboot ended (rebooting bootloader)'',
                       UsbdEnd True False, ReloadNyx]
            \<and> ReloadNyx \<notin> set pre
            \<and> okay_progress_of pre = Ticked)"
proof -
  have "reboot_run \<noteq> None"
    by code_simp
  then obtain res fin where r: "reboot_run = Some (res, fin)"
    by (cases reboot_run) auto
  have "status (snd (the reboot_run)) = FASTBOOT_STATUS_REBOOT_BOOTLOADER"
    and "tx_frames (trace (snd (the reboot_run))) = [''OKAY'']"
    by code_simp+
  then have st: "status fin = FASTBOOT_STATUS_REBOOT_BOOTLOADER"
    and fr: "tx_frames (trace fin) = [''OKAY'']"
    by (simp_all add: r)
  show ?thesis
    using restart_after_teardown_and_okay[OF r[unfolded reboot_run_def]] r st fr
    by blast
qed

text \<open>
  Claim C7 in a download of two reads. Between the two reads the download is in progress
  (the head is at \<open>0x1000\<close> of \<open>0x2000\<close> bytes) and \<open>tight_turnaround\<close> is not set; in
  the pass that follows, the periodic maintenance runs and the two state names are
  displayed. The code clears the flag when the download completes and tests it twice in
  the loop, but nothing ever sets it.
\<close>

theorem tight_turnaround_unset_in_download:
  "rx_state in_download = FASTBOOT_RX_STATE_DOWNLOAD
   \<and> download_head in_download = 0x1000
   \<and> download_size in_download = 0x2000
   \<and> tight_turnaround in_download = False
   \<and> trace after_download =
       trace in_download @
         [MinervaPeriodicTraining, GetSuspended False, Ep0Ctrl False, ReadingPoll 0,
          ReadEp1Out RxBuffer 64, WriteEp1In ''OKAYgot it!'', WritingPoll 3,
          SetTextStates ''download'' ''send response'']
   \<and> tight_turnaround after_download = False"
  unfolding in_download_def after_download_def two_chunk_passes_def
  by code_simp

text \<open>
  Claim C8 at a line of 44 bytes. The line \<open>flash:\<close> followed by 38 digits is no known
  command. The frame handed to the transport is \<open>FAIL\<close>, \<open>unknown command: \<close> and the
  first 43 bytes of the line, 64 bytes in all, but on the way \<open>strncat\<close> has written its
  terminator at \<open>message[61]\<close>, behind the last byte \<open>message[60]\<close> of the array: its bound
  is \<open>sizeof(message) - strlen(message)\<close>, one more than the room that is left. The
  frame is the one of the claim only where that byte is not in use.
\<close>

theorem long_unknown_command_overruns_message:
  "trace after_long_unknown =
     [SetText ''#C7EA46 Status:# Started USB'', Ep0Ctrl False, ReadEp1Out RxBuffer 64,
      GetSuspended False, Ep0Ctrl False, ReadingPoll 0, SetTextStates ''command'' ''idle'',
      GetSuspended False, Ep0Ctrl False,
      HandleCommand FASTBOOT_RX_STATE_IDLE FASTBOOT_TX_STATE_IDLE
        ''flash:01234567890123456789012345678901234567'',
      MessageOverrun,
      ReadEp1Out RxBuffer 64,
      WriteEp1In ''FAILunknown command: flash:0123456789012345678901234567890123456'',
      WritingPoll 3, SetTextStates ''wtx process'' ''send response'']
   \<and> length ''flash:01234567890123456789012345678901234567'' = 44
   \<and> snd (c_strncat (''unknown command: '' @ replicate 44 NUL)
             ''flash:01234567890123456789012345678901234567'' 44) = True"
  unfolding after_long_unknown_def by code_simp

text \<open>
  Claim C9, as the code has it. The receive path writes one NUL, at
  \<open>rx_buffer[rx_length]\<close>; the bytes behind it keep what earlier, longer commands left
  there. Whatever those bytes are: when a command read completes with fewer than 17
  bytes that begin with \<open>download:\<close>, the terminator lies inside the size window, the
  parse stops there, and once the gate opens the command is answered with exactly
  \<open>FAILfailed to parse size\<close>.
\<close>

theorem short_download_fails_parse:
  assumes "length (rx_buffer fb) = 65"
    and "reading_poll_res io = 0"
    and "take 9 (reading_poll_bytes io) = ''download:''"
    and "length (reading_poll_bytes io) < 17"
    and "tx_state fb = FASTBOOT_TX_STATE_IDLE"
  shows "rx_buffer (fastboot_rx_state_command io fb) =
           reading_poll_bytes io @ NUL #
             drop (Suc (length (reading_poll_bytes io))) (rx_buffer fb)
       \<and> rx_state (fastboot_rx_state_command io fb) = FASTBOOT_RX_STATE_WAITING_TX_FOR_PROCESS
       \<and> (\<exists>c\<in>set (take 8 (drop 9 (rx_buffer (fastboot_rx_state_command io fb)))).
             \<not> is_hex_digit c)
       \<and> trace (fastboot_rx_state_waiting_tx_for_process cfg io'
                  (fastboot_rx_state_command io fb)) =
           trace fb @ [ReadingPoll 0,
                       HandleCommand FASTBOOT_RX_STATE_IDLE FASTBOOT_TX_STATE_IDLE
                         (c_str (reading_poll_bytes io)),
                       ReadEp1Out RxBuffer 64, WriteEp1In ''FAILfailed to parse size'']"
proof -
  let ?d = "reading_poll_bytes io"
  let ?fb1 = "fastboot_rx_state_command io fb"
  have len: "9 \<le> length ?d"
  proof (rule ccontr)
    assume "\<not> 9 \<le> length ?d"
    then have "length (take 9 ?d) < 9" by simp
    then show False using assms(3) by simp
  qed
  have un: "unat (of_nat (length ?d) :: u32) = length ?d"
    using assms(4) by (simp add: unat_of_nat take_bit_nat_eq_self)
  have buf: "rx_buffer ?fb1 = ?d @ NUL # drop (Suc (length ?d)) (rx_buffer fb)"
    using assms(1,2,4) un
    by (simp add: fastboot_rx_state_command_def usb_read_complete_command_def mem_write_def
          emit_def Let_def fastboot_rx_enter_waiting_tx_for_process_def
          FASTBOOT_COMMAND_BUFFER_SIZE_def terminate_behind)
  have st: "rx_state ?fb1 = FASTBOOT_RX_STATE_WAITING_TX_FOR_PROCESS"
           "tx_state ?fb1 = tx_state fb" "trace ?fb1 = trace fb @ [ReadingPoll 0]"
    using assms(2)
    by (simp_all add: fastboot_rx_state_command_def usb_read_complete_command_def emit_def
          Let_def fastboot_rx_enter_waiting_tx_for_process_def)
  have pre: "take 9 (rx_buffer ?fb1) = ''download:''"
    using assms(3) len by (simp add: buf)
  obtain k where k: "17 - length ?d = Suc k"
    using assms(4) by (cases "17 - length ?d") auto
  have "NUL \<in> set (take 8 (drop 9 (rx_buffer ?fb1)))"
    using len k by (simp add: buf)
  moreover have "\<not> is_hex_digit NUL"
    by (simp add: is_hex_digit_def NUL_def)
  ultimately have bad: "\<exists>c\<in>set (take 8 (drop 9 (rx_buffer ?fb1))). \<not> is_hex_digit c"
    by blast
  then have none: "parse_hex_window (take 8 (drop 9 (rx_buffer ?fb1))) 0 = None"
    by (simp add: parse_hex_window_None)
  have line: "c_str (rx_buffer ?fb1) = c_str ?d"
    by (simp add: buf c_str_cut)
  have pre': "take 9 (rx_buffer (fastboot_rx_enter_idle ?fb1)) = ''download:''"
    and none': "parse_hex_window (take 8 (drop 9 (rx_buffer (fastboot_rx_enter_idle ?fb1)))) 0
                  = None"
    using pre none by (simp_all add: fastboot_rx_enter_idle_def)
  have m: "length ''failed to parse size'' \<le> 60" "NUL \<notin> set ''failed to parse size''"
    by (simp_all add: NUL_def)
  have idle: "rx_state (fastboot_rx_enter_idle ?fb1) = FASTBOOT_RX_STATE_IDLE"
    "tx_state (fastboot_rx_enter_idle ?fb1) = tx_state ?fb1"
    "trace (fastboot_rx_enter_idle ?fb1) = trace ?fb1"
    "rx_buffer (fastboot_rx_enter_idle ?fb1) = rx_buffer ?fb1"
    by (simp_all add: fastboot_rx_enter_idle_def)
  have "trace (fastboot_rx_state_waiting_tx_for_process cfg io' ?fb1) =
          trace fb @ [ReadingPoll 0,
                      HandleCommand FASTBOOT_RX_STATE_IDLE FASTBOOT_TX_STATE_IDLE (c_str ?d),
                      ReadEp1Out RxBuffer 64, WriteEp1In ''FAILfailed to parse size'']"
    using write_event_frame[OF m, of FASTBOOT_RESPONSE_FAIL] st line assms(5) idle
    by (simp add: fastboot_rx_state_waiting_tx_for_process_def
          handle_command_bad_size[OF pre' none'] send_response_normal emit_def)
  then show ?thesis
    using buf st(1) bad by simp
qed

theorem short_download_fails_parse_witness:
  "rx_buffer (fastboot_rx_state_command (io_recv 0 ''download:0000'')
       ((holding ''getvar:abcdef0123456789'')\<lparr>tx_state := FASTBOOT_TX_STATE_IDLE\<rparr>)) =
     ''download:0000'' @ NUL # ''123456789'' @ replicate 42 NUL
   \<and> trace (fastboot_rx_state_waiting_tx_for_process cfg_example (io_idle 0)
        (fastboot_rx_state_command (io_recv 0 ''download:0000'')
          ((holding ''getvar:abcdef0123456789'')\<lparr>tx_state := FASTBOOT_TX_STATE_IDLE\<rparr>))) =
     [ReadingPoll 0,
      HandleCommand FASTBOOT_RX_STATE_IDLE FASTBOOT_TX_STATE_IDLE ''download:0000'',
      ReadEp1Out RxBuffer 64, WriteEp1In ''FAILfailed to parse size'']"
  using short_download_fails_parse[of
          "(holding ''getvar:abcdef0123456789'')\<lparr>tx_state := FASTBOOT_TX_STATE_IDLE\<rparr>"
          "io_recv 0 ''download:0000''" cfg_example "io_idle 0"]
  by (simp add: holding_def fastboot_zero_def mem_write_def FASTBOOT_COMMAND_BUFFER_SIZE_def
        io_recv_def io_idle_def c_str_def NUL_def)

text \<open>
  The claim as it is written fails: after the answer to \<open>getvar:abcdef0123456789\<close> and
  the reception of the 13 bytes \<open>download:0000\<close>, \<open>rx_length\<close> is 13 and the bytes 14
  to 16 of \<open>rx_buffer\<close>, inside the size window, still hold the hex digits \<open>123\<close> of the
  earlier command: the buffer is not zero-filled behind its used length.
\<close>

theorem rx_buffer_keeps_stale_bytes:
  "rx_state after_short_download = FASTBOOT_RX_STATE_WAITING_TX_FOR_PROCESS
   \<and> rx_length after_short_download = 13
   \<and> take 17 (rx_buffer after_short_download) = ''download:0000'' @ NUL # ''123''
   \<and> \<not> (\<forall>i. unat (rx_length after_short_download) < i \<and> i < 65
             \<longrightarrow> rx_buffer after_short_download ! i = NUL)"
proof -
  have a: "rx_state after_short_download = FASTBOOT_RX_STATE_WAITING_TX_FOR_PROCESS"
    and b: "rx_length after_short_download = 13"
    and c: "rx_buffer after_short_download =
              ''download:0000'' @ NUL # ''123456789'' @ replicate 42 NUL"
    unfolding after_short_download_def by (simp_all add: run_defs replicate_update_same)
  have "unat (rx_length after_short_download) < 14 \<and> (14::nat) < 65
        \<and> rx_buffer after_short_download ! 14 \<noteq> NUL"
    by (simp add: b c NUL_def)
  then have "\<not> (\<forall>i. unat (rx_length after_short_download) < i \<and> i < 65
             \<longrightarrow> rx_buffer after_short_download ! i = NUL)"
    by blast
  then show ?thesis
    using a b c by simp
qed

text \<open>
  Claim C10. For every current status and every requested status,
  \<open>fastboot_set_status\<close> stores the requested status and returns true exactly when the
  current one is at most the requested one in the order
  Normal < ProtocolReset < InvalidState < UsbError < RebootBootloader (an equal status is
  stored again), and otherwise returns false with the session unchanged. RebootBootloader
  is strictly above UsbError, so a session at ProtocolReset or at UsbError can still be
  moved to RebootBootloader.
\<close>

theorem set_status_order:
  "status_value FASTBOOT_STATUS_NORMAL < status_value FASTBOOT_STATUS_PROTOCOL_RESET
   \<and> status_value FASTBOOT_STATUS_PROTOCOL_RESET < status_value FASTBOOT_STATUS_INVALID_STATE
   \<and> status_value FASTBOOT_STATUS_INVALID_STATE < status_value FASTBOOT_STATUS_USB_ERROR
   \<and> status_value FASTBOOT_STATUS_USB_ERROR < status_value FASTBOOT_STATUS_REBOOT_BOOTLOADER
   \<and> fst (fastboot_set_status n fb) = (status_value (status fb) \<le> status_value n)
   \<and> snd (fastboot_set_status n fb) =
       (if status_value (status fb) \<le> status_value n then fb\<lparr>status := n\<rparr> else fb)
   \<and> fastboot_set_status n (fb\<lparr>status := n\<rparr>) = (True, fb\<lparr>status := n\<rparr>)
   \<and> fastboot_set_status FASTBOOT_STATUS_REBOOT_BOOTLOADER
         (fb\<lparr>status := FASTBOOT_STATUS_PROTOCOL_RESET\<rparr>)
       = (True, fb\<lparr>status := FASTBOOT_STATUS_REBOOT_BOOTLOADER\<rparr>)
   \<and> fastboot_set_status FASTBOOT_STATUS_REBOOT_BOOTLOADER
         (fb\<lparr>status := FASTBOOT_STATUS_USB_ERROR\<rparr>)
       = (True, fb\<lparr>status := FASTBOOT_STATUS_REBOOT_BOOTLOADER\<rparr>)"
  by (simp add: fastboot_set_status_def)

end
